theory Spec2Isabelle
  imports Complex_Main "HOL-Library.Word"
begin

section \<open>Request gateway (the middleware \<open>onRequest\<close>)\<close>

text \<open>
  The middleware resolves the caller's session through the auth library, stores the
  result in the request-scoped \<open>locals\<close>, and then either answers with a redirect to
  the sign-in page or hands the request to the downstream handler \<open>next\<close>.

  The path of a URL is ASCII, so the strings of this section are modelled as
  \<^typ>\<open>string\<close> (the email of the user occurs in a logged line only); the
  pictographs and the line break that start the source's console lines are left out of
  the logged text.
\<close>

record user =
  user_id :: string
  user_email :: string
  user_name :: string

record session =
  session_token :: string
  session_userId :: string

record sessionData =
  sd_user :: user
  sd_session :: session

type_synonym headers = "(string \<times> string) list"

record api_context =
  url_pathname :: string
  request_headers :: headers

record locals =
  locals_user :: "user option"
  locals_session :: "session option"

datatype console = Log string | Error string

text \<open>
  What the middleware returns: \<open>context.redirect(target)\<close>, or whatever the downstream
  handler produced (\<open>return next()\<close>).
\<close>

datatype 'r response = Redirect string | Next 'r

record ('r, 'w) outcome =
  response :: "'r response"
  out_locals :: locals
  out_console :: "console list"
  out_world :: 'w

text \<open>\<open>s.startsWith(p)\<close>: the first \<open>length p\<close> code units of \<open>s\<close> are \<open>p\<close>.\<close>

definition startsWith :: "string \<Rightarrow> string \<Rightarrow> bool" where
  "startsWith s p = (take (length p) s = p)"

text \<open>
  Step 1 of the middleware, the \<open>try\<close>/\<open>catch\<close> around \<open>auth.api.getSession\<close>. The
  library call is a parameter: it returns \<open>Inr (Some sd)\<close> for a session, \<open>Inr None\<close>
  for \<open>null\<close>, and \<open>Inl msg\<close> when it throws an error with message \<open>msg\<close>.
\<close>

definition checkSession ::
  "(headers \<Rightarrow> string + sessionData option) \<Rightarrow> api_context \<Rightarrow> locals \<times> console list" where
  "checkSession getSession ctx =
     (case getSession (request_headers ctx) of
        Inr (Some sd) \<Rightarrow>
          (\<lparr>locals_user = Some (sd_user sd), locals_session = Some (sd_session sd)\<rparr>,
           [Log (''Session found for user: '' @ user_email (sd_user sd))])
      | Inr None \<Rightarrow>
          (\<lparr>locals_user = None, locals_session = None\<rparr>, [Log ''No session found.''])
      | Inl msg \<Rightarrow>
          (\<lparr>locals_user = None, locals_session = None\<rparr>,
           [Error (''ERROR in middleware while checking session: '' @ msg)]))"

text \<open>
  The whole middleware. The downstream handler \<open>next\<close> reads the locals and acts on a
  world \<open>'w\<close> (everything a page or API handler can change); it is called only on the
  last line.
\<close>

definition onRequest ::
  "(headers \<Rightarrow> string + sessionData option) \<Rightarrow> (locals \<Rightarrow> 'w \<Rightarrow> 'r \<times> 'w) \<Rightarrow>
   api_context \<Rightarrow> 'w \<Rightarrow> ('r, 'w) outcome" where
  "onRequest getSession next ctx w =
     (let log0 = [Log (''MIDDLEWARE EXECUTED for path: '' @ url_pathname ctx)];
          (loc, log1) = checkSession getSession ctx;
          pathname = url_pathname ctx
      in if startsWith pathname ''/dashboard'' then
           if locals_user loc = None then
             \<lparr>response = Redirect ''/sign-in'', out_locals = loc,
              out_console = log0 @ log1 @
                [Log (''Access DENIED to protected route '' @ pathname @
                      ''. Redirecting to /login.'')],
              out_world = w\<rparr>
           else
             (let (r, w') = next loc w
              in \<lparr>response = Next r, out_locals = loc,
                  out_console = log0 @ log1 @
                    [Log (''Access GRANTED to '' @ pathname @ ''. Passing to next().'')],
                  out_world = w'\<rparr>)
         else
           (let (r, w') = next loc w
            in \<lparr>response = Next r, out_locals = loc,
                out_console = log0 @ log1 @
                  [Log (''Access GRANTED to '' @ pathname @ ''. Passing to next().'')],
                out_world = w'\<rparr>))"

text \<open>The gateway's decision is the return statement that was taken.\<close>

datatype decision = Allow | RedirectToSignIn

definition decision_of :: "('r, 'w) outcome \<Rightarrow> decision" where
  "decision_of out = (case response out of Redirect _ \<Rightarrow> RedirectToSignIn | Next _ \<Rightarrow> Allow)"

text \<open>An identity is present when the session lookup returned a session.\<close>

definition identity_present :: "(headers \<Rightarrow> string + sessionData option) \<Rightarrow> api_context \<Rightarrow> bool" where
  "identity_present getSession ctx =
     (case getSession (request_headers ctx) of Inr (Some _) \<Rightarrow> True | _ \<Rightarrow> False)"

text \<open>
  The policy as the specification words it: a path with a prefix in the configured
  protected-prefix set requires a present identity, every other path is allowed.
\<close>

definition policy_spec :: "string list \<Rightarrow> string \<Rightarrow> bool \<Rightarrow> decision" where
  "policy_spec prefixes path identity =
     (if (\<exists>p \<in> set prefixes. startsWith path p) \<and> \<not> identity
      then RedirectToSignIn else Allow)"

definition protected_prefixes :: "string list" where
  "protected_prefixes = [''/dashboard'']"

text \<open>
  Sample collaborators for concrete runs: a session lookup that finds nothing, one that
  finds a session, one whose store is down, and a downstream handler that counts its
  own executions in the world.
\<close>

definition no_session :: "headers \<Rightarrow> string + sessionData option" where
  "no_session hs = Inr None"

definition alice :: user where
  "alice = \<lparr>user_id = ''u1'', user_email = ''alice@example.com'', user_name = ''Alice''\<rparr>"

definition alice_session :: "headers \<Rightarrow> string + sessionData option" where
  "alice_session hs =
     Inr (Some \<lparr>sd_user = alice,
                sd_session = \<lparr>session_token = ''t1'', session_userId = ''u1''\<rparr>\<rparr>)"

definition store_down :: "headers \<Rightarrow> string + sessionData option" where
  "store_down hs = Inl ''connect ETIMEDOUT''"

definition counting_handler :: "locals \<Rightarrow> nat \<Rightarrow> string \<times> nat" where
  "counting_handler loc n = (''page'', Suc n)"

definition request_to :: "string \<Rightarrow> api_context" where
  "request_to path = \<lparr>url_pathname = path, request_headers = []\<rparr>"

section \<open>Sign-up endpoint (\<open>POST\<close> of \<open>pages/api/actions/sign-up.ts\<close>)\<close>

text \<open>
  The request body is arbitrary JSON, so its strings are sequences of UTF-16 code
  units, as in JavaScript: \<open>length\<close>, \<open>trim\<close> and the regular expression all work on
  code units. \<open>js\<close> turns an ASCII literal into such a string.
\<close>

type_synonym jsstring = "16 word list"

definition js :: "string \<Rightarrow> jsstring" where
  "js s = map of_char s"

text \<open>
  What \<open>JSON.parse\<close> can produce. A number is modelled by its (finite) value.
  \<open>undefined\<close>, the value of a missing property, is \<open>None\<close> of \<open>json option\<close>.
\<close>

datatype json =
    JNull
  | JBool bool
  | JNum rat
  | JStr jsstring
  | JArr "json list"
  | JObj "(jsstring \<times> json) list"

text \<open>
  Reading a property while destructuring. Of a repeated key \<open>JSON.parse\<close> keeps the
  last value; arrays, strings, numbers and booleans have none of the five properties
  the handler reads.
\<close>

fun getProp :: "json \<Rightarrow> jsstring \<Rightarrow> json option" where
  "getProp (JObj kvs) k = map_of (rev kvs) k"
| "getProp _ k = None"

text \<open>\<open>!v\<close> is \<open>\<not> truthy v\<close>.\<close>

fun truthy :: "json option \<Rightarrow> bool" where
  "truthy None = False"
| "truthy (Some JNull) = False"
| "truthy (Some (JBool b)) = b"
| "truthy (Some (JNum n)) = (n \<noteq> 0)"
| "truthy (Some (JStr s)) = (s \<noteq> [])"
| "truthy (Some (JArr _)) = True"
| "truthy (Some (JObj _)) = True"

fun isString :: "json option \<Rightarrow> bool" where
  "isString (Some (JStr _)) = True"
| "isString _ = False"

text \<open>
  \<open>a === b\<close> for two values read from different properties of the parsed body:
  primitives compare by value, two arrays or objects are never the same object.
\<close>

fun strictEq :: "json option \<Rightarrow> json option \<Rightarrow> bool" where
  "strictEq None None = True"
| "strictEq (Some JNull) (Some JNull) = True"
| "strictEq (Some (JBool a)) (Some (JBool b)) = (a = b)"
| "strictEq (Some (JNum a)) (Some (JNum b)) = (a = b)"
| "strictEq (Some (JStr a)) (Some (JStr b)) = (a = b)"
| "strictEq _ _ = False"

text \<open>
  The code units that \<open>\s\<close> matches and \<open>trim\<close> removes: the white space and line
  terminator characters of ECMAScript.
\<close>

definition isWhiteSpace :: "16 word \<Rightarrow> bool" where
  "isWhiteSpace c =
     (c \<in> set [0x09, 0x0A, 0x0B, 0x0C, 0x0D, 0x20, 0xA0, 0x1680, 0x2028, 0x2029, 0x202F,
               0x205F, 0x3000, 0xFEFF]
      \<or> (0x2000 \<le> c \<and> c \<le> 0x200A))"

definition trim :: "jsstring \<Rightarrow> jsstring" where
  "trim s = rev (dropWhile isWhiteSpace (rev (dropWhile isWhiteSpace s)))"

text \<open>
  The test \<open>/^[^\s@]+@[^\s@]+\.[^\s@]+$/.test(email)\<close>. The first group cannot
  contain \<open>@\<close>, so it is the longest prefix of characters that are neither white space
  nor \<open>@\<close>, and \<open>@\<close> must follow it; what follows that \<open>@\<close> must consist of such
  characters only and have a dot that is neither its first nor its last character.
\<close>

definition plainChar :: "16 word \<Rightarrow> bool" where
  "plainChar c = (\<not> isWhiteSpace c \<and> c \<noteq> 0x40)"

definition emailRegexTest :: "jsstring \<Rightarrow> bool" where
  "emailRegexTest s =
     (let local = takeWhile plainChar s; rest = dropWhile plainChar s
      in local \<noteq> [] \<and>
         (case rest of
            [] \<Rightarrow> False
          | c # domain \<Rightarrow>
              c = 0x40 \<and> list_all plainChar domain \<and>
              0x2E \<in> set (butlast (tl domain))))"

text \<open>
  The texts of the responses, which the source writes in Russian, by what they say.
\<close>

datatype message =
    InvalidRequestFormat
  | EnterYourName
  | InvalidEmailFormat
  | PasswordTooShort
  | PasswordsDoNotMatch
  | MustAcceptTerms
  | UserAlreadyExists
  | SignUpFailedTryLater
  | InternalServerError

record validationErrors =
  err_name :: "message option"
  err_email :: "message option"
  err_password :: "message option"
  err_confirmPassword :: "message option"
  err_terms :: "message option"

datatype payload =
    MessagePayload message
  | ErrorsPayload validationErrors
  | SuccessPayload

record api_response =
  resp_status :: nat
  resp_content_type :: string
  resp_payload :: payload

definition json_response :: "nat \<Rightarrow> payload \<Rightarrow> api_response" where
  "json_response st p =
     \<lparr>resp_status = st, resp_content_type = ''application/json'', resp_payload = p\<rparr>"

text \<open>Step 2 of the handler: the five checks, each setting one field of \<open>errors\<close>.\<close>

definition validate :: "json \<Rightarrow> validationErrors" where
  "validate body =
     (let name = getProp body (js ''name'');
          email = getProp body (js ''email'');
          password = getProp body (js ''password'');
          confirmPassword = getProp body (js ''confirmPassword'');
          terms = getProp body (js ''terms'')
      in \<lparr>err_name =
            (if \<not> truthy name \<or> \<not> isString name \<or>
                (case name of Some (JStr n) \<Rightarrow> length (trim n) = 0 | _ \<Rightarrow> False)
             then Some EnterYourName else None),
          err_email =
            (if \<not> truthy email \<or> \<not> isString email \<or>
                (case email of Some (JStr e) \<Rightarrow> \<not> emailRegexTest e | _ \<Rightarrow> False)
             then Some InvalidEmailFormat else None),
          err_password =
            (if \<not> truthy password \<or> \<not> isString password \<or>
                (case password of Some (JStr p) \<Rightarrow> length p < 8 | _ \<Rightarrow> False)
             then Some PasswordTooShort else None),
          err_confirmPassword =
            (if \<not> strictEq password confirmPassword then Some PasswordsDoNotMatch else None),
          err_terms =
            (if \<not> strictEq terms (Some (JBool True)) then Some MustAcceptTerms else None)\<rparr>)"

definition no_errors :: validationErrors where
  "no_errors = \<lparr>err_name = None, err_email = None, err_password = None,
                err_confirmPassword = None, err_terms = None\<rparr>"

text \<open>
  What \<open>request.json()\<close> gives (\<open>NotJson\<close> when it rejects), and what
  \<open>auth.api.signUpEmail\<close> can throw: an \<open>APIError\<close> with its \<open>status\<close>, or any
  other error.
\<close>

datatype request_body = NotJson | Json json

datatype thrown = APIError string | OtherThrown string

datatype uncaught = TypeError

text \<open>
  The handler. The library call \<open>signUpEmail\<close> is a parameter: it takes the name, the
  email and the password, acts on the world, and returns \<open>None\<close> or what it threw.
  Destructuring a \<open>null\<close> body throws outside every \<open>try\<close>.
\<close>

definition POST ::
  "(json option \<Rightarrow> json option \<Rightarrow> json option \<Rightarrow> 'w \<Rightarrow> thrown option \<times> 'w) \<Rightarrow>
   request_body \<Rightarrow> 'w \<Rightarrow> (uncaught + api_response) \<times> console list \<times> 'w" where
  "POST signUpEmail req w =
     (case req of
        NotJson \<Rightarrow> (Inr (json_response 400 (MessagePayload InvalidRequestFormat)), [], w)
      | Json JNull \<Rightarrow> (Inl TypeError, [], w)
      | Json body \<Rightarrow>
          (let errors = validate body
           in if errors \<noteq> no_errors then (Inr (json_response 400 (ErrorsPayload errors)), [], w)
              else
                (case signUpEmail (getProp body (js ''name'')) (getProp body (js ''email''))
                        (getProp body (js ''password'')) w of
                   (Some (APIError st), w') \<Rightarrow>
                     (if st = ''UNPROCESSABLE_ENTITY'' then
                        (Inr (json_response 409
                           (ErrorsPayload (no_errors\<lparr>err_email := Some UserAlreadyExists\<rparr>))),
                         [], w')
                      else
                        (Inr (json_response 500 (MessagePayload SignUpFailedTryLater)), [], w'))
                 | (Some (OtherThrown e), w') \<Rightarrow>
                     (Inr (json_response 500 (MessagePayload InternalServerError)),
                      [Error (''Sign up with email and password has not worked '' @ e)], w')
                 | (None, w') \<Rightarrow> (Inr (json_response 200 SuccessPayload), [], w'))))"

text \<open>
  A sample library call for concrete runs: the world is the list of registered emails,
  and signing up with a registered email throws the \<open>APIError\<close> that the handler
  treats as "user already exists".
\<close>

definition sample_signUpEmail ::
  "json option \<Rightarrow> json option \<Rightarrow> json option \<Rightarrow> jsstring list \<Rightarrow> thrown option \<times> jsstring list" where
  "sample_signUpEmail name email password registered =
     (case email of
        Some (JStr e) \<Rightarrow>
          if e \<in> set registered then (Some (APIError ''UNPROCESSABLE_ENTITY''), registered)
          else (None, registered @ [e])
      | _ \<Rightarrow> (Some (OtherThrown ''email is not a string''), registered))"

definition sample_body :: "string \<Rightarrow> json" where
  "sample_body email =
     JObj [(js ''name'', JStr (js ''Ann'')), (js ''email'', JStr (js email)),
           (js ''password'', JStr (js ''longenough1'')),
           (js ''confirmPassword'', JStr (js ''longenough1'')),
           (js ''terms'', JBool True)]"

section \<open>The catch-all auth route (\<open>ALL\<close> of \<open>pages/api/auth/[...all].ts\<close>)\<close>

text \<open>
  The route logs the method and the URL and returns what \<open>auth.handler\<close> returns for
  the request. The handler is a parameter acting on the world of the auth library.
  \<open>ALL\<close> is the source's name of \<open>ALL_route\<close>; the logged line, Russian in the
  source, is given by what it says.
\<close>

record 'q http_request =
  req_method :: string
  req_url :: string
  req_payload :: 'q

definition ALL_route ::
  "('q http_request \<Rightarrow> 'w \<Rightarrow> 'r \<times> 'w) \<Rightarrow> 'q http_request \<Rightarrow> 'w \<Rightarrow> 'r \<times> console list \<times> 'w" where
  "ALL_route auth_handler req w =
     (let (r, w') = auth_handler req w
      in (r, [Log (''[HANDLER] request received: '' @ req_method req @ '' '' @ req_url req)],
          w'))"

section \<open>One-time codes, recovery and sessions\<close>

text \<open>
  The one-time-code issuer, the recovery operations and the stores are behind
  \<open>auth.handler\<close> and \<open>auth.api\<close> (module \<open>lib/auth/auth\<close> and the auth library it
  configures); that code is not among the sources, only its callers are. Every
  definition of this section is therefore written from the specification, and says so.
  Times are natural numbers.
\<close>

text \<open>Modelled from the spec: the OneTimeCode record of the data model (section 3).\<close>

record OneTimeCode =
  otc_email :: jsstring
  otc_purpose :: jsstring
  otc_code :: jsstring
  otc_issuedAt :: nat
  otc_expiresAt :: nat
  otc_consumed :: bool
  otc_attempts :: nat

text \<open>
  Modelled from the spec: the configuration constants of the issuer, the time a code
  lives (TTL) and the cap on attempts; the spec fixes neither ("e.g. 10 minutes",
  "e.g. 5").
\<close>

record issuer_config =
  cfg_ttl :: nat
  cfg_cap :: nat

text \<open>
  Modelled from the spec: a 6-digit code, range 000000 to 999999, leading zeros
  preserved, from a random draw \<open>n\<close>.
\<close>

definition sixDigits :: "nat \<Rightarrow> jsstring" where
  "sixDigits n = map (\<lambda>k. of_nat (48 + (n div 10 ^ k) mod 10)) [5, 4, 3, 2, 1, 0]"

text \<open>Modelled from the spec: a record belongs to an (email, purpose) pair.\<close>

definition for_pair :: "jsstring \<Rightarrow> jsstring \<Rightarrow> OneTimeCode \<Rightarrow> bool" where
  "for_pair email purpose r = (otc_email r = email \<and> otc_purpose r = purpose)"

text \<open>Modelled from the spec: a code is expired when its \<open>expiresAt\<close> has passed.\<close>

definition expired :: "nat \<Rightarrow> OneTimeCode \<Rightarrow> bool" where
  "expired now r = (otc_expiresAt r < now)"

text \<open>Modelled from the spec: an active code is unconsumed and unexpired.\<close>

definition active :: "nat \<Rightarrow> OneTimeCode \<Rightarrow> bool" where
  "active now r = (\<not> otc_consumed r \<and> \<not> expired now r)"

text \<open>
  Modelled from the spec: \<open>issue(email, purpose)\<close> of section 4.1, whose code is
  missing from the sources. Every pre-existing
  active code of the pair is marked consumed, then the new record is stored (the store
  lists the newest record first) with \<open>attempts = 0\<close>, \<open>consumed = false\<close>,
  \<open>issuedAt = now\<close>, \<open>expiresAt = now + TTL\<close>. The code is sent out of band;
  \<open>send_ok\<close> is the dispatcher's answer, and a failed dispatch does not roll the
  issuance back. The caller receives the dispatcher's answer, not the code; the
  dispatched message is the second component.
\<close>

definition issue ::
  "issuer_config \<Rightarrow> nat \<Rightarrow> nat \<Rightarrow> bool \<Rightarrow> jsstring \<Rightarrow> jsstring \<Rightarrow> OneTimeCode list \<Rightarrow>
   bool \<times> (jsstring \<times> jsstring) \<times> OneTimeCode list" where
  "issue cfg now draw send_ok email purpose store =
     (let code = sixDigits draw;
          invalidated =
            map (\<lambda>r. if for_pair email purpose r \<and> active now r
                      then r\<lparr>otc_consumed := True\<rparr> else r) store;
          fresh = \<lparr>otc_email = email, otc_purpose = purpose, otc_code = code,
                   otc_issuedAt = now, otc_expiresAt = now + cfg_ttl cfg,
                   otc_consumed = False, otc_attempts = 0\<rparr>
      in (send_ok, (email, code), fresh # invalidated))"

text \<open>Modelled from the spec: the conditional update of one stored record, the newest that
  satisfies \<open>P\<close>.\<close>

fun update_first :: "('a \<Rightarrow> bool) \<Rightarrow> ('a \<Rightarrow> 'a) \<Rightarrow> 'a list \<Rightarrow> 'a list" where
  "update_first P f [] = []"
| "update_first P f (x # xs) = (if P x then f x # xs else x # update_first P f xs)"

text \<open>Modelled from the spec: the record of a pair that a validation looks at, the newest
  one stored for the pair.\<close>

definition current :: "jsstring \<Rightarrow> jsstring \<Rightarrow> OneTimeCode list \<Rightarrow> OneTimeCode option" where
  "current email purpose store = find (for_pair email purpose) store"

text \<open>
  Modelled from the spec: \<open>validateAndConsume(email, purpose, code)\<close> of section 4.1,
  whose code is missing from the sources. It fails closed when no record exists, the record is expired, the record is consumed,
  the attempts have reached the cap, or the code does not match; a non-matching attempt
  increments \<open>attempts\<close>; a match sets \<open>consumed\<close> and returns true in the same step.
\<close>

definition validateAndConsume ::
  "issuer_config \<Rightarrow> nat \<Rightarrow> jsstring \<Rightarrow> jsstring \<Rightarrow> jsstring \<Rightarrow> OneTimeCode list \<Rightarrow>
   bool \<times> OneTimeCode list" where
  "validateAndConsume cfg now email purpose code store =
     (case current email purpose store of
        None \<Rightarrow> (False, store)
      | Some r \<Rightarrow>
          if expired now r then (False, store)
          else if otc_consumed r then (False, store)
          else if cfg_cap cfg \<le> otc_attempts r then (False, store)
          else if otc_code r \<noteq> code then
            (False, update_first (for_pair email purpose)
                      (\<lambda>r. r\<lparr>otc_attempts := otc_attempts r + 1\<rparr>) store)
          else
            (True, update_first (for_pair email purpose)
                     (\<lambda>r. r\<lparr>otc_consumed := True\<rparr>) store))"

text \<open>
  Modelled from the spec: the checks of \<open>validateAndConsume\<close> (section 4.1, code missing
  from the sources) on one code instance: it grants a match when the record is not
  expired, not consumed, below the cap, and its code is the submitted one.
\<close>

definition accepts :: "issuer_config \<Rightarrow> nat \<Rightarrow> jsstring \<Rightarrow> OneTimeCode \<Rightarrow> bool" where
  "accepts cfg now code r =
     (\<not> expired now r \<and> \<not> otc_consumed r \<and> otc_attempts r < cfg_cap cfg \<and> otc_code r = code)"

text \<open>
  Modelled from the spec: what \<open>issue\<close> (section 4.1, code missing from the sources)
  does to a pre-existing code instance of its pair: an active one is marked consumed.
\<close>

definition invalidated :: "nat \<Rightarrow> OneTimeCode \<Rightarrow> OneTimeCode" where
  "invalidated now r = (if active now r then r\<lparr>otc_consumed := True\<rparr> else r)"

text \<open>Modelled from the spec: the purpose tag of the recovery flow.\<close>

definition forget_password :: jsstring where
  "forget_password = js ''forget-password''"

text \<open>Modelled from the spec: the terminal states of a code instance at a time: Consumed,
  Expired, Exhausted (section 4.2).\<close>

definition terminal :: "issuer_config \<Rightarrow> nat \<Rightarrow> OneTimeCode \<Rightarrow> bool" where
  "terminal cfg now r = (otc_consumed r \<or> expired now r \<or> cfg_cap cfg \<le> otc_attempts r)"

text \<open>Modelled from the spec: a sequence of \<open>validateAndConsume\<close> calls, each with its
  time, email, purpose and submitted code, with no \<open>issue\<close> in between.\<close>

fun validateAll ::
  "issuer_config \<Rightarrow> (nat \<times> jsstring \<times> jsstring \<times> jsstring) list \<Rightarrow> OneTimeCode list \<Rightarrow>
   OneTimeCode list" where
  "validateAll cfg [] store = store"
| "validateAll cfg ((now, email, purpose, code) # calls) store =
     validateAll cfg calls (snd (validateAndConsume cfg now email purpose code store))"

text \<open>
  Sample data for concrete runs: a configuration with a TTL of 600 and a cap of 5, and
  the store after one code, 123456, was issued at time 0 for \<open>a@x.com\<close>.
\<close>

definition sample_cfg :: issuer_config where
  "sample_cfg = \<lparr>cfg_ttl = 600, cfg_cap = 5\<rparr>"

definition ann :: jsstring where
  "ann = js ''a@x.com''"

definition sample_codes :: "OneTimeCode list" where
  "sample_codes = snd (snd (issue sample_cfg 0 123456 True ann forget_password []))"

definition wrong_guesses :: "(nat \<times> jsstring \<times> jsstring \<times> jsstring) list" where
  "wrong_guesses = map (\<lambda>t. (t, ann, forget_password, js ''000000'')) [1, 2, 3, 4, 5]"

text \<open>Modelled from the spec: the two operations of the issuer (section 4.1) as events,
  each with the time at which it runs: \<open>Issue now draw send_ok email purpose\<close> and
  \<open>Validate now email purpose code\<close>.\<close>

datatype issuer_op =
    Issue nat nat bool jsstring jsstring
  | Validate nat jsstring jsstring jsstring

text \<open>Modelled from the spec: the time of an issuer event.\<close>

fun op_time :: "issuer_op \<Rightarrow> nat" where
  "op_time (Issue now draw send_ok email purpose) = now"
| "op_time (Validate now email purpose code) = now"

text \<open>Modelled from the spec: the effect of one issuer event on the code store.\<close>

fun step :: "issuer_config \<Rightarrow> issuer_op \<Rightarrow> OneTimeCode list \<Rightarrow> OneTimeCode list" where
  "step cfg (Issue now draw send_ok email purpose) store =
     snd (snd (issue cfg now draw send_ok email purpose store))"
| "step cfg (Validate now email purpose code) store =
     snd (validateAndConsume cfg now email purpose code store)"

text \<open>Modelled from the spec: the code store after a history of issuer events.\<close>

fun run :: "issuer_config \<Rightarrow> issuer_op list \<Rightarrow> OneTimeCode list \<Rightarrow> OneTimeCode list" where
  "run cfg [] store = store"
| "run cfg (ev # evs) store = run cfg evs (step cfg ev store)"

text \<open>Modelled from the spec: the active codes of an (email, purpose) pair at a time.\<close>

definition active_codes :: "nat \<Rightarrow> jsstring \<Rightarrow> jsstring \<Rightarrow> OneTimeCode list \<Rightarrow> OneTimeCode list" where
  "active_codes now email purpose store =
     filter (\<lambda>r. for_pair email purpose r \<and> active now r) store"

text \<open>
  Sample histories: a second code with another value issued at time 5, and a second
  code with the value of the first.
\<close>

definition reissue_events :: "issuer_op list" where
  "reissue_events =
     [Issue 0 123456 True ann forget_password, Issue 5 654321 True ann forget_password]"

definition reissued_same :: "OneTimeCode list" where
  "reissued_same = snd (snd (issue sample_cfg 5 123456 True ann forget_password sample_codes))"

subsection \<open>Stores and the recovery state machine\<close>

text \<open>Modelled from the spec: the User record of the Credential Store (section 3).\<close>

record User =
  u_id :: jsstring
  u_email :: jsstring
  u_name :: jsstring
  u_passwordHash :: jsstring
  u_emailVerified :: bool

text \<open>Modelled from the spec: the Session record of the Session Store (section 3).\<close>

record Session =
  s_token :: jsstring
  s_userId :: jsstring
  s_createdAt :: nat
  s_expiresAt :: nat
  s_rememberMe :: bool

text \<open>Modelled from the spec: emails are case-insensitive; two emails are the same when
  they agree after the letters A to Z are mapped to a to z.\<close>

definition lowerUnit :: "16 word \<Rightarrow> 16 word" where
  "lowerUnit c = (if 0x41 \<le> c \<and> c \<le> 0x5A then c + 0x20 else c)"

text \<open>Modelled from the spec: the comparison of two emails, case-insensitive.\<close>

definition sameEmail :: "jsstring \<Rightarrow> jsstring \<Rightarrow> bool" where
  "sameEmail a b = (map lowerUnit a = map lowerUnit b)"

text \<open>Modelled from the spec: \<open>findByEmail(email) -> User|absent\<close> of the Credential
  Store (section 6).\<close>

definition findByEmail :: "User list \<Rightarrow> jsstring \<Rightarrow> User option" where
  "findByEmail users email = find (\<lambda>u. sameEmail (u_email u) email) users"

text \<open>Modelled from the spec: the effect of a successful
  \<open>updatePassword(userId, newHash)\<close> on the Credential Store (section 6).\<close>

definition updatePassword :: "User list \<Rightarrow> jsstring \<Rightarrow> jsstring \<Rightarrow> User list" where
  "updatePassword users userId newHash =
     map (\<lambda>u. if u_id u = userId then u\<lparr>u_passwordHash := newHash\<rparr> else u) users"

text \<open>Modelled from the spec: \<open>lookup(token) -> Session|absent\<close> of the Session Store
  (section 6), as the gateway uses it: an expired session does not resolve.\<close>

definition lookup :: "nat \<Rightarrow> Session list \<Rightarrow> jsstring \<Rightarrow> Session option" where
  "lookup now sessions token =
     (case find (\<lambda>s. s_token s = token) sessions of
        None \<Rightarrow> None
      | Some s \<Rightarrow> if s_expiresAt s < now then None else Some s)"

text \<open>Modelled from the spec: \<open>invalidateAll(userId) -> count\<close> of the Session Store
  (section 6), a best-effort sweep (section 5): a session of the user stays when its
  invalidation fails; \<open>fails\<close> tells for which tokens it does. The result is the number
  of invalidated sessions and the sessions that remain.\<close>

definition invalidateAll ::
  "(jsstring \<Rightarrow> bool) \<Rightarrow> jsstring \<Rightarrow> Session list \<Rightarrow> nat \<times> Session list" where
  "invalidateAll fails userId sessions =
     (let remaining = filter (\<lambda>s. s_userId s \<noteq> userId \<or> fails (s_token s)) sessions
      in (length sessions - length remaining, remaining))"

text \<open>Modelled from the spec: everything the recovery operations read and change: the
  Credential Store, the Session Store, the issuer's records, the messages handed to the
  out-of-band dispatcher, and the server log.\<close>

record recovery_state =
  st_users :: "User list"
  st_sessions :: "Session list"
  st_codes :: "OneTimeCode list"
  st_outbox :: "(jsstring \<times> jsstring) list"
  st_log :: "console list"

text \<open>Modelled from the spec: what one request takes from its environment: the time,
  the random draw, whether the dispatcher and the credential write succeed, for which
  session tokens the invalidation fails, and the password hash function.\<close>

record env =
  env_now :: nat
  env_draw :: nat
  env_send_ok :: bool
  env_write_ok :: bool
  env_sweep_fails :: "jsstring \<Rightarrow> bool"
  env_hash :: "jsstring \<Rightarrow> jsstring"

text \<open>Modelled from the spec: the responses of the recovery operations (sections 6 and
  7): 202 with the uniform "check your email" message, 200, and the three errors.\<close>

datatype recovery_response =
    Accepted202
  | Success200
  | ValidationError
  | InvalidOrExpiredCode
  | StoreUnavailable

text \<open>Modelled from the spec: \<open>requestReset(email)\<close> of section 4.2, whose code is
  missing from the sources. An absent account
  gets the same response and no \<open>issue\<close>; a failed dispatch is logged and does not
  change the response.\<close>

definition requestReset ::
  "issuer_config \<Rightarrow> env \<Rightarrow> jsstring \<Rightarrow> recovery_state \<Rightarrow> recovery_response \<times> recovery_state" where
  "requestReset cfg env email st =
     (case findByEmail (st_users st) email of
        None \<Rightarrow> (Accepted202, st)
      | Some u \<Rightarrow>
          (let (sent, msg, codes') =
                 issue cfg (env_now env) (env_draw env) (env_send_ok env) email
                   forget_password (st_codes st)
           in (Accepted202,
               st\<lparr>st_codes := codes', st_outbox := st_outbox st @ [msg],
                  st_log := st_log st @ (if sent then [] else [Error ''dispatch failed''])\<rparr>)))"

text \<open>Modelled from the spec: \<open>commitReset(email, code, newPassword)\<close> of section 4.2,
  whose code is missing from the sources. The password must have length 8 at least; a false \<open>validateAndConsume\<close> gives
  \<open>InvalidOrExpiredCode\<close>, as does an absent account; a failed credential write gives
  \<open>StoreUnavailable\<close> with the code already spent; after the write the sessions of the
  user are swept, an incomplete sweep is logged, and success is responded.\<close>

definition commitReset ::
  "issuer_config \<Rightarrow> env \<Rightarrow> jsstring \<Rightarrow> jsstring \<Rightarrow> jsstring \<Rightarrow> recovery_state \<Rightarrow>
   recovery_response \<times> recovery_state" where
  "commitReset cfg env email code newPassword st =
     (if length newPassword < 8 then (ValidationError, st)
      else
        (let (ok, codes') =
               validateAndConsume cfg (env_now env) email forget_password code (st_codes st);
             st1 = st\<lparr>st_codes := codes'\<rparr>
         in if \<not> ok then (InvalidOrExpiredCode, st1)
            else
              (case findByEmail (st_users st1) email of
                 None \<Rightarrow> (InvalidOrExpiredCode, st1)
               | Some u \<Rightarrow>
                   if \<not> env_write_ok env then
                     (StoreUnavailable,
                      st1\<lparr>st_log := st_log st1 @ [Error ''credential write failed'']\<rparr>)
                   else
                     (let users' = updatePassword (st_users st1) (u_id u)
                                     (env_hash env newPassword);
                          (count, remaining) =
                            invalidateAll (env_sweep_fails env) (u_id u) (st_sessions st1)
                      in (Success200,
                          st1\<lparr>st_users := users', st_sessions := remaining,
                              st_log := st_log st1 @
                                (if list_ex (\<lambda>s. s_userId s = u_id u) remaining
                                 then [Error ''session sweep incomplete''] else [])\<rparr>)))))"

text \<open>Modelled from the spec: the body of \<open>POST /auth/otp/send {email, type}\<close> and the
  part of \<open>auth.handler\<close> that serves it (section 6), which is \<open>requestReset\<close> on the
  email.\<close>

record otp_send_body =
  os_email :: jsstring
  os_type :: jsstring

text \<open>Modelled from the spec: \<open>auth.handler\<close>, which is missing from the sources, on a
  request to \<open>POST /auth/otp/send\<close> (section 6).\<close>

definition otp_send ::
  "issuer_config \<Rightarrow> env \<Rightarrow> otp_send_body http_request \<Rightarrow> recovery_state \<Rightarrow>
   recovery_response \<times> recovery_state" where
  "otp_send cfg env req st = requestReset cfg env (os_email (req_payload req)) st"

text \<open>
  Sample data: a store with the account of \<open>a@x.com\<close>, two sessions of that user and
  one of another user; an environment in which every call succeeds, and one in which no
  session can be invalidated. The sample hash reverses the password.
\<close>

definition sample_user :: User where
  "sample_user = \<lparr>u_id = js ''u1'', u_email = ann, u_name = js ''Ann'',
                  u_passwordHash = js ''old-hash'', u_emailVerified = True\<rparr>"

definition sample_sessions :: "Session list" where
  "sample_sessions =
     [\<lparr>s_token = js ''t1'', s_userId = js ''u1'', s_createdAt = 0, s_expiresAt = 1000,
       s_rememberMe = False\<rparr>,
      \<lparr>s_token = js ''t2'', s_userId = js ''u2'', s_createdAt = 0, s_expiresAt = 1000,
       s_rememberMe = False\<rparr>,
      \<lparr>s_token = js ''t3'', s_userId = js ''u1'', s_createdAt = 0, s_expiresAt = 1000,
       s_rememberMe = True\<rparr>]"

definition sample_state :: recovery_state where
  "sample_state = \<lparr>st_users = [sample_user], st_sessions = sample_sessions,
                   st_codes = sample_codes, st_outbox = [], st_log = []\<rparr>"

definition sample_env :: env where
  "sample_env = \<lparr>env_now = 10, env_draw = 123456, env_send_ok = True, env_write_ok = True,
                 env_sweep_fails = (\<lambda>t. False), env_hash = rev\<rparr>"

definition stuck_sweep_env :: env where
  "stuck_sweep_env = sample_env\<lparr>env_sweep_fails := (\<lambda>t. True)\<rparr>"

definition otp_send_request :: "string \<Rightarrow> otp_send_body http_request" where
  "otp_send_request email =
     \<lparr>req_method = ''POST'', req_url = ''/api/auth/otp/send'',
      req_payload = \<lparr>os_email = js email, os_type = forget_password\<rparr>\<rparr>"

section \<open>Verified properties\<close>

lemma locals_user_checkSession:
  "(locals_user (fst (checkSession gs ctx)) = None) = (\<not> identity_present gs ctx)"
  by (simp add: checkSession_def identity_present_def split: sum.splits option.splits)

lemma response_onRequest:
  "response (onRequest gs nxt ctx w) =
     (if startsWith (url_pathname ctx) ''/dashboard'' \<and> \<not> identity_present gs ctx
      then Redirect ''/sign-in''
      else Next (fst (nxt (fst (checkSession gs ctx)) w)))"
proof -
  obtain loc lg where c: "checkSession gs ctx = (loc, lg)"
    by (cases "checkSession gs ctx")
  obtain r w' where n: "nxt loc w = (r, w')"
    by (cases "nxt loc w")
  from c have "(locals_user loc = None) = (\<not> identity_present gs ctx)"
    using locals_user_checkSession [of gs ctx] by simp
  with c n show ?thesis
    by (simp add: onRequest_def Let_def)
qed

lemma world_onRequest:
  "out_world (onRequest gs nxt ctx w) =
     (if startsWith (url_pathname ctx) ''/dashboard'' \<and> \<not> identity_present gs ctx
      then w
      else snd (nxt (fst (checkSession gs ctx)) w))"
proof -
  obtain loc lg where c: "checkSession gs ctx = (loc, lg)"
    by (cases "checkSession gs ctx")
  obtain r w' where n: "nxt loc w = (r, w')"
    by (cases "nxt loc w")
  from c have "(locals_user loc = None) = (\<not> identity_present gs ctx)"
    using locals_user_checkSession [of gs ctx] by simp
  with c n show ?thesis
    by (simp add: onRequest_def Let_def)
qed


lemma decision_onRequest:
  "decision_of (onRequest gs nxt ctx w) =
     (if startsWith (url_pathname ctx) ''/dashboard'' \<and> \<not> identity_present gs ctx
      then RedirectToSignIn else Allow)"
  by (simp add: decision_of_def response_onRequest)

lemma sign_in_unprotected: "\<not> startsWith ''/sign-in'' ''/dashboard''"
  by (simp add: startsWith_def)

subsection \<open>The policy decision\<close>

text \<open>
  C1. The decision of the gateway is a function of the request path and of whether an
  identity was resolved, and of nothing else: it is the specification's policy for the
  protected-prefix set \<open>{/dashboard}\<close>. It is RedirectToSignIn exactly when the path
  starts with \<open>/dashboard\<close> and no identity is present, and Allow exactly in every
  other case; an allowed request gets the downstream handler's response.
\<close>

theorem onRequest_policy:
  "decision_of (onRequest gs nxt ctx w) =
     policy_spec protected_prefixes (url_pathname ctx) (identity_present gs ctx)
   \<and> ((decision_of (onRequest gs nxt ctx w) = RedirectToSignIn) =
        (startsWith (url_pathname ctx) ''/dashboard'' \<and> \<not> identity_present gs ctx))
   \<and> ((decision_of (onRequest gs nxt ctx w) = Allow) =
        (\<not> startsWith (url_pathname ctx) ''/dashboard'' \<or> identity_present gs ctx))"
  by (simp add: decision_onRequest policy_spec_def protected_prefixes_def)

theorem onRequest_policy_witness:
  "decision_of (onRequest no_session counting_handler (request_to ''/dashboard/settings'') 0)
     = RedirectToSignIn
   \<and> decision_of (onRequest alice_session counting_handler (request_to ''/dashboard/settings'') 0)
     = Allow
   \<and> decision_of (onRequest no_session counting_handler (request_to ''/about'') 0) = Allow
   \<and> decision_of (onRequest alice_session counting_handler (request_to ''/about'') 0) = Allow"
  using onRequest_policy [of no_session counting_handler "request_to ''/dashboard/settings''" 0]
    onRequest_policy [of alice_session counting_handler "request_to ''/dashboard/settings''" 0]
    onRequest_policy [of no_session counting_handler "request_to ''/about''" 0]
    onRequest_policy [of alice_session counting_handler "request_to ''/about''" 0]
  by (simp add: request_to_def startsWith_def identity_present_def no_session_def
      alice_session_def policy_spec_def protected_prefixes_def)

subsection \<open>A redirect does not run the downstream handler\<close>

text \<open>
  C2. When the path is protected and no session resolves, the gateway decides
  RedirectToSignIn, answers with the redirect to \<open>/sign-in\<close>, leaves the world as it
  was, and its whole outcome is the same for every downstream handler: the handler is
  not executed.
\<close>

theorem redirect_skips_next:
  assumes "startsWith (url_pathname ctx) ''/dashboard''"
    and "\<not> identity_present gs ctx"
  shows "decision_of (onRequest gs nxt ctx w) = RedirectToSignIn
    \<and> response (onRequest gs nxt ctx w) = Redirect ''/sign-in''
    \<and> out_world (onRequest gs nxt ctx w) = w
    \<and> onRequest gs nxt' ctx w = onRequest gs nxt ctx w"
proof -
  obtain loc lg where c: "checkSession gs ctx = (loc, lg)"
    by (cases "checkSession gs ctx")
  from c assms(2) have u: "locals_user loc = None"
    using locals_user_checkSession [of gs ctx] by simp
  have "onRequest gs nxt' ctx w = onRequest gs nxt ctx w"
    using assms(1) c u by (simp add: onRequest_def Let_def)
  with assms show ?thesis
    by (simp add: decision_onRequest response_onRequest world_onRequest)
qed

theorem redirect_skips_next_witness:
  "response (onRequest no_session counting_handler (request_to ''/dashboard'') 7)
     = Redirect ''/sign-in''
   \<and> out_world (onRequest no_session counting_handler (request_to ''/dashboard'') 7) = 7
   \<and> out_world (onRequest alice_session counting_handler (request_to ''/dashboard'') 7) = 8"
proof -
  have p: "startsWith (url_pathname (request_to ''/dashboard'')) ''/dashboard''"
    by (simp add: request_to_def startsWith_def)
  have a: "\<not> identity_present no_session (request_to ''/dashboard'')"
    by (simp add: identity_present_def no_session_def)
  have "identity_present alice_session (request_to ''/dashboard'')"
    by (simp add: identity_present_def alice_session_def)
  then have "out_world (onRequest alice_session counting_handler (request_to ''/dashboard'') 7) = 8"
    by (simp add: world_onRequest counting_handler_def)
  with redirect_skips_next [OF p a, of counting_handler 7 counting_handler]
  show ?thesis by simp
qed

subsection \<open>A failing session lookup\<close>

text \<open>
  C7, as the claim states it, does not hold for the gateway: a session lookup that
  throws is caught, and the request is answered as an anonymous one. On \<open>/dashboard\<close>
  the caller receives the redirect, on \<open>/about\<close> the downstream page; in both cases
  the response is the one a request without a session gets.
\<close>

theorem store_failure_surfaced_counterexample:
  "response (onRequest store_down counting_handler (request_to ''/dashboard'') 0)
     = Redirect ''/sign-in''
   \<and> response (onRequest store_down counting_handler (request_to ''/dashboard'') 0)
     = response (onRequest no_session counting_handler (request_to ''/dashboard'') 0)
   \<and> response (onRequest store_down counting_handler (request_to ''/about'') 0) = Next ''page''
   \<and> response (onRequest store_down counting_handler (request_to ''/about'') 0)
     = response (onRequest no_session counting_handler (request_to ''/about'') 0)"
  by (simp add: response_onRequest request_to_def startsWith_def identity_present_def
      store_down_def no_session_def counting_handler_def)

text \<open>
  C7 (amended). When the session lookup of the gateway fails with message \<open>msg\<close>, the
  gateway writes the message to the server's error console and treats the caller as
  anonymous: the locals hold no user and no session, and the response, the locals and
  the world are those of the same request under a lookup that finds no session. Nothing
  of the failure reaches the response.
\<close>

theorem store_failure_treated_as_anonymous:
  assumes "gs (request_headers ctx) = Inl msg"
    and "gs0 (request_headers ctx) = Inr None"
  shows "response (onRequest gs nxt ctx w) = response (onRequest gs0 nxt ctx w)
    \<and> out_locals (onRequest gs nxt ctx w) = out_locals (onRequest gs0 nxt ctx w)
    \<and> out_world (onRequest gs nxt ctx w) = out_world (onRequest gs0 nxt ctx w)
    \<and> out_locals (onRequest gs nxt ctx w) = \<lparr>locals_user = None, locals_session = None\<rparr>
    \<and> Error (''ERROR in middleware while checking session: '' @ msg)
        \<in> set (out_console (onRequest gs nxt ctx w))"
proof -
  let ?anon = "\<lparr>locals_user = None, locals_session = None\<rparr>"
  obtain r w' where n: "nxt ?anon w = (r, w')"
    by (cases "nxt ?anon w")
  have c: "checkSession gs ctx =
      (?anon, [Error (''ERROR in middleware while checking session: '' @ msg)])"
    using assms(1) by (simp add: checkSession_def)
  have c0: "checkSession gs0 ctx = (?anon, [Log ''No session found.''])"
    using assms(2) by (simp add: checkSession_def)
  show ?thesis
    using c c0 n by (simp add: onRequest_def Let_def)
qed

theorem store_failure_treated_as_anonymous_witness:
  "out_world (onRequest store_down counting_handler (request_to ''/dashboard'') 3) = 3
   \<and> out_locals (onRequest store_down counting_handler (request_to ''/dashboard'') 3)
     = \<lparr>locals_user = None, locals_session = None\<rparr>
   \<and> Error ''ERROR in middleware while checking session: connect ETIMEDOUT''
       \<in> set (out_console (onRequest store_down counting_handler (request_to ''/dashboard'') 3))"
proof -
  have f: "store_down (request_headers (request_to ''/dashboard'')) = Inl ''connect ETIMEDOUT''"
    by (simp add: store_down_def)
  have a: "no_session (request_headers (request_to ''/dashboard'')) = Inr None"
    by (simp add: no_session_def)
  have "out_world (onRequest no_session counting_handler (request_to ''/dashboard'') 3) = 3"
    by (simp add: world_onRequest request_to_def startsWith_def identity_present_def
        no_session_def)
  with store_failure_treated_as_anonymous [of store_down "request_to ''/dashboard''"
      "''connect ETIMEDOUT''" no_session counting_handler 3, OF f a]
  show ?thesis by auto
qed

subsection \<open>The sign-in page is not protected\<close>

text \<open>
  C8. The redirect target \<open>/sign-in\<close> does not start with the protected prefix
  \<open>/dashboard\<close>. So a request to \<open>/sign-in\<close> is allowed whatever the session lookup
  returns, and whenever the gateway answers a request with a redirect, the request to
  the redirect's target is allowed: no second redirect follows.
\<close>

theorem sign_in_never_protected:
  "\<not> startsWith ''/sign-in'' ''/dashboard''
   \<and> decision_of (onRequest gs nxt \<lparr>url_pathname = ''/sign-in'', request_headers = hs\<rparr> w)
       = Allow
   \<and> (response (onRequest gs1 nxt1 ctx w1) = Redirect target \<longrightarrow>
        decision_of (onRequest gs nxt \<lparr>url_pathname = target, request_headers = hs\<rparr> w)
          = Allow)"
  using sign_in_unprotected
  by (auto simp add: decision_onRequest response_onRequest split: if_splits)

theorem sign_in_never_protected_witness:
  "response (onRequest no_session counting_handler (request_to ''/dashboard'') 0)
     = Redirect ''/sign-in''
   \<and> decision_of (onRequest no_session counting_handler
        \<lparr>url_pathname = ''/sign-in'', request_headers = []\<rparr> 0) = Allow"
proof -
  have r: "response (onRequest no_session counting_handler (request_to ''/dashboard'') 0)
      = Redirect ''/sign-in''"
    by (simp add: response_onRequest request_to_def startsWith_def identity_present_def
        no_session_def)
  with sign_in_never_protected [of no_session counting_handler "[]" 0 no_session
      counting_handler "request_to ''/dashboard''" 0 "''/sign-in''"]
  show ?thesis by simp
qed

section \<open>Sign-up reveals whether an email is registered\<close>

text \<open>
  The executable test agrees with the regular expression read as a pattern: the string
  is a nonempty run of plain characters, \<open>@\<close>, a nonempty run, a dot, and a nonempty
  run to the end.
\<close>

lemma at_not_plain: "\<not> plainChar 0x40"
  by (simp add: plainChar_def)

lemma emailRegexTest_iff:
  "emailRegexTest s =
     (\<exists>a b c. s = a @ [0x40] @ b @ [0x2E] @ c \<and> a \<noteq> [] \<and> b \<noteq> [] \<and> c \<noteq> []
        \<and> list_all plainChar a \<and> list_all plainChar b \<and> list_all plainChar c)"
proof
  assume t: "emailRegexTest s"
  let ?a = "takeWhile plainChar s"
  from t obtain d where r: "dropWhile plainChar s = 0x40 # d" and a: "?a \<noteq> []"
    and pd: "list_all plainChar d" and dot: "0x2E \<in> set (butlast (tl d))"
    by (auto simp add: emailRegexTest_def Let_def split: list.splits)
  from dot obtain m1 m2 where m: "butlast (tl d) = m1 @ [0x2E] @ m2"
    by (auto dest: split_list)
  then have nt: "tl d \<noteq> []" by auto
  then have nd: "d \<noteq> []" by auto
  from nt have "tl d = butlast (tl d) @ [last (tl d)]" by simp
  with m have td: "tl d = m1 @ [0x2E] @ m2 @ [last (tl d)]" by simp
  from nd have "d = hd d # tl d" by simp
  with td have d: "d = (hd d # m1) @ [0x2E] @ (m2 @ [last (tl d)])" by simp
  have "s = ?a @ dropWhile plainChar s" by simp
  with r d have s: "s = ?a @ [0x40] @ (hd d # m1) @ [0x2E] @ (m2 @ [last (tl d)])"
    by simp
  have pa: "list_all plainChar ?a"
    by (simp add: list_all_iff) (meson set_takeWhileD)
  from pd d have "list_all plainChar ((hd d # m1) @ [0x2E] @ (m2 @ [last (tl d)]))"
    by metis
  then have "list_all plainChar (hd d # m1) \<and> list_all plainChar (m2 @ [last (tl d)])"
    by simp
  with s a pa show "\<exists>a b c. s = a @ [0x40] @ b @ [0x2E] @ c \<and> a \<noteq> [] \<and> b \<noteq> [] \<and> c \<noteq> []
        \<and> list_all plainChar a \<and> list_all plainChar b \<and> list_all plainChar c"
    by blast
next
  assume "\<exists>a b c. s = a @ [0x40] @ b @ [0x2E] @ c \<and> a \<noteq> [] \<and> b \<noteq> [] \<and> c \<noteq> []
        \<and> list_all plainChar a \<and> list_all plainChar b \<and> list_all plainChar c"
  then obtain a b c where s: "s = a @ [0x40] @ b @ [0x2E] @ c"
    and ne: "a \<noteq> []" "b \<noteq> []" "c \<noteq> []"
    and p: "list_all plainChar a" "list_all plainChar b" "list_all plainChar c"
    by blast
  from p(1) have tw: "takeWhile plainChar s = a"
    unfolding s by (simp add: list_all_iff takeWhile_append2 at_not_plain)
  from p(1) have dw: "dropWhile plainChar s = 0x40 # b @ [0x2E] @ c"
    unfolding s by (simp add: list_all_iff dropWhile_append2 at_not_plain)
  have dotp: "plainChar 0x2E"
    by (simp add: plainChar_def isWhiteSpace_def)
  from ne(2,3) have "butlast (tl (b @ [0x2E] @ c)) = tl b @ [0x2E] @ butlast c"
    by (simp add: butlast_append)
  then have "0x2E \<in> set (butlast (tl (b @ [0x2E] @ c)))" by simp
  with tw dw ne(1) p dotp show "emailRegexTest s"
    by (simp add: emailRegexTest_def)
qed

lemma validate_sample_body: "validate (sample_body ''ann@example.com'') = no_errors"
  by (simp add: validate_def sample_body_def js_def no_errors_def trim_def isWhiteSpace_def
      emailRegexTest_def plainChar_def)

text \<open>
  C10. For a body that passes the validation, the response of the sign-up handler
  depends on what the library call does with the email: when it throws the
  \<open>APIError\<close> of status \<open>UNPROCESSABLE_ENTITY\<close> (the case of an email that already has
  an account), the response is 409 with the field-level error "a user with this email
  already exists" on \<open>email\<close>; when it succeeds (a fresh email), the response is 200
  with \<open>success\<close>. The two responses differ, so the caller learns whether the email is
  registered.
\<close>

theorem sign_up_reveals_account_existence:
  assumes "body \<noteq> JNull" and "validate body = no_errors"
  shows "(fst (signUpEmail (getProp body (js ''name'')) (getProp body (js ''email''))
              (getProp body (js ''password'')) w) = Some (APIError ''UNPROCESSABLE_ENTITY'') \<longrightarrow>
           fst (POST signUpEmail (Json body) w) =
             Inr (json_response 409
                    (ErrorsPayload (no_errors\<lparr>err_email := Some UserAlreadyExists\<rparr>))))
       \<and> (fst (signUpEmail (getProp body (js ''name'')) (getProp body (js ''email''))
              (getProp body (js ''password'')) w) = None \<longrightarrow>
           fst (POST signUpEmail (Json body) w) = Inr (json_response 200 SuccessPayload))
       \<and> json_response 409 (ErrorsPayload (no_errors\<lparr>err_email := Some UserAlreadyExists\<rparr>))
           \<noteq> json_response 200 SuccessPayload"
  using assms
  by (cases body) (auto simp add: POST_def json_response_def split: prod.splits)

theorem sign_up_reveals_account_existence_witness:
  "fst (POST sample_signUpEmail (Json (sample_body ''ann@example.com''))
          [js ''ann@example.com'']) =
     Inr (json_response 409 (ErrorsPayload (no_errors\<lparr>err_email := Some UserAlreadyExists\<rparr>)))
   \<and> fst (POST sample_signUpEmail (Json (sample_body ''ann@example.com'')) []) =
     Inr (json_response 200 SuccessPayload)"
proof -
  let ?b = "sample_body ''ann@example.com''"
  have b: "?b \<noteq> JNull"
    by (simp add: sample_body_def)
  have taken: "fst (sample_signUpEmail (getProp ?b (js ''name'')) (getProp ?b (js ''email''))
      (getProp ?b (js ''password'')) [js ''ann@example.com''])
      = Some (APIError ''UNPROCESSABLE_ENTITY'')"
    by (simp add: sample_signUpEmail_def sample_body_def js_def)
  have fresh: "fst (sample_signUpEmail (getProp ?b (js ''name'')) (getProp ?b (js ''email''))
      (getProp ?b (js ''password'')) []) = None"
    by (simp add: sample_signUpEmail_def sample_body_def js_def)
  from taken fresh
    sign_up_reveals_account_existence [OF b validate_sample_body, of sample_signUpEmail
      "[js ''ann@example.com'']"]
    sign_up_reveals_account_existence [OF b validate_sample_body, of sample_signUpEmail "[]"]
  show ?thesis by blast
qed

section \<open>One-time codes: terminal states\<close>

lemma find_update_first_same:
  "(\<And>x. P x \<Longrightarrow> P (f x)) \<Longrightarrow> find P (update_first P f xs) = map_option f (find P xs)"
  by (induction xs) auto

lemma find_update_first_other:
  "(\<And>x. P x \<Longrightarrow> \<not> Q x \<and> \<not> Q (f x)) \<Longrightarrow> find Q (update_first P f xs) = find Q xs"
  by (induction xs) auto

lemma current_update_same:
  assumes "\<And>r. otc_email (f r) = otc_email r \<and> otc_purpose (f r) = otc_purpose r"
  shows "current e p (update_first (for_pair e p) f s) = map_option f (current e p s)"
  unfolding current_def using assms
  by (intro find_update_first_same) (simp add: for_pair_def)

lemma current_update_other:
  assumes "(e2, p2) \<noteq> (e, p)"
    and "\<And>r. otc_email (f r) = otc_email r \<and> otc_purpose (f r) = otc_purpose r"
  shows "current e p (update_first (for_pair e2 p2) f s) = current e p s"
  unfolding current_def using assms
  by (intro find_update_first_other) (auto simp add: for_pair_def)

lemma terminal_rejected:
  assumes "current e p s = Some r" and "terminal cfg now r"
  shows "validateAndConsume cfg now e p c s = (False, s)"
  using assms by (auto simp add: validateAndConsume_def terminal_def)

lemma terminal_mono: "terminal cfg now r \<Longrightarrow> now \<le> now' \<Longrightarrow> terminal cfg now' r"
  by (auto simp add: terminal_def expired_def)

lemma terminal_preserved:
  assumes "current e p s = Some r" and "terminal cfg now r"
  shows "\<exists>r'. current e p (snd (validateAndConsume cfg now2 e2 p2 c2 s)) = Some r'
           \<and> terminal cfg now r'"
proof (cases "(e2, p2) = (e, p)")
  case True
  with assms show ?thesis
    by (auto simp add: validateAndConsume_def current_update_same
        terminal_def expired_def)
next
  case False
  then have "current e p (snd (validateAndConsume cfg now2 e2 p2 c2 s)) = current e p s"
    by (auto simp add: validateAndConsume_def current_update_other split: option.splits)
  with assms show ?thesis by simp
qed

lemma terminal_validateAll:
  assumes "current e p s = Some r" and "terminal cfg now r"
  shows "\<exists>r'. current e p (validateAll cfg calls s) = Some r' \<and> terminal cfg now r'"
  using assms
proof (induction calls arbitrary: s r)
  case Nil
  then show ?case by auto
next
  case (Cons call calls)
  obtain now2 e2 p2 c2 where call: "call = (now2, e2, p2, c2)"
    by (cases call) auto
  from terminal_preserved [OF Cons.prems, of now2 e2 p2 c2]
  obtain r1 where "current e p (snd (validateAndConsume cfg now2 e2 p2 c2 s)) = Some r1"
    and "terminal cfg now r1" by blast
  from Cons.IH [OF this] call show ?case by simp
qed

lemma success_consumes:
  assumes "validateAndConsume cfg now e p c s = (True, s1)"
  shows "\<exists>r. current e p s1 = Some r \<and> otc_consumed r"
  using assms
  by (auto simp add: validateAndConsume_def current_update_same split: option.splits if_splits)

lemma sixDigits_123456: "sixDigits 123456 = js ''123456''"
  by (simp add: sixDigits_def js_def)

lemma sample_codes_eq:
  "sample_codes = [\<lparr>otc_email = ann, otc_purpose = forget_password, otc_code = js ''123456'',
      otc_issuedAt = 0, otc_expiresAt = 600, otc_consumed = False, otc_attempts = 0\<rparr>]"
  by (simp add: sample_codes_def issue_def sixDigits_123456 sample_cfg_def Let_def)

lemma sample_current:
  "current ann forget_password sample_codes = Some (hd sample_codes)"
  by (simp add: sample_codes_eq current_def for_pair_def)

lemma after_wrong_guesses:
  "validateAll sample_cfg wrong_guesses sample_codes =
     [\<lparr>otc_email = ann, otc_purpose = forget_password, otc_code = js ''123456'',
       otc_issuedAt = 0, otc_expiresAt = 600, otc_consumed = False, otc_attempts = 5\<rparr>]"
  by (simp add: wrong_guesses_def validateAndConsume_def current_def for_pair_def
      sample_codes_eq expired_def sample_cfg_def js_def)

text \<open>
  C3. The states Consumed, Expired and Exhausted of a code instance are terminal. If
  the record that a validation of the pair looks at is consumed, expired at \<open>now\<close> or
  at the cap, then after any sequence of further validations (of any pair, at any
  times, with any codes) the pair's record is still in such a state at every time from
  \<open>now\<close> on, and \<open>validateAndConsume\<close> then returns false for every submitted code,
  the correct one included, and changes nothing. A validation that returns true leaves
  the record consumed, so every later validation of the pair returns false: the
  operation returns true at most once per code.
\<close>

theorem terminal_states_absorbing:
  "(current e p s = Some r \<and> terminal cfg now r \<and> now \<le> now' \<longrightarrow>
      (\<exists>r'. current e p (validateAll cfg calls s) = Some r' \<and> terminal cfg now' r')
      \<and> validateAndConsume cfg now' e p c (validateAll cfg calls s)
          = (False, validateAll cfg calls s))
   \<and> (validateAndConsume cfg now e p c s = (True, s1) \<longrightarrow>
      (\<exists>r1. current e p s1 = Some r1 \<and> otc_consumed r1)
      \<and> validateAndConsume cfg now'' e p c' (validateAll cfg calls s1)
          = (False, validateAll cfg calls s1))"
proof (intro conjI impI)
  assume a: "current e p s = Some r \<and> terminal cfg now r \<and> now \<le> now'"
  then obtain r' where r': "current e p (validateAll cfg calls s) = Some r'" "terminal cfg now r'"
    using terminal_validateAll by blast
  with a have t: "terminal cfg now' r'" using terminal_mono by blast
  with r' show "\<exists>r'. current e p (validateAll cfg calls s) = Some r' \<and> terminal cfg now' r'"
    by blast
  from r' t show "validateAndConsume cfg now' e p c (validateAll cfg calls s)
          = (False, validateAll cfg calls s)"
    using terminal_rejected by blast
next
  assume a: "validateAndConsume cfg now e p c s = (True, s1)"
  from success_consumes [OF a] obtain r1 where r1: "current e p s1 = Some r1" "otc_consumed r1"
    by blast
  then show "\<exists>r1. current e p s1 = Some r1 \<and> otc_consumed r1" by blast
  from r1 have "terminal cfg now'' r1" by (simp add: terminal_def)
  from terminal_validateAll [OF r1(1) this, of calls]
  show "validateAndConsume cfg now'' e p c' (validateAll cfg calls s1)
          = (False, validateAll cfg calls s1)"
    using terminal_rejected by blast
qed

theorem terminal_states_absorbing_witness:
  "fst (validateAndConsume sample_cfg 10 ann forget_password (js ''123456'') sample_codes)
   \<and> \<not> fst (validateAndConsume sample_cfg 20 ann forget_password (js ''123456'')
        (snd (validateAndConsume sample_cfg 10 ann forget_password (js ''123456'') sample_codes)))
   \<and> \<not> fst (validateAndConsume sample_cfg 601 ann forget_password (js ''123456'') sample_codes)
   \<and> \<not> fst (validateAndConsume sample_cfg 6 ann forget_password (js ''123456'')
        (validateAll sample_cfg wrong_guesses sample_codes))"
proof -
  let ?s1 = "snd (validateAndConsume sample_cfg 10 ann forget_password (js ''123456'')
      sample_codes)"
  let ?s5 = "validateAll sample_cfg wrong_guesses sample_codes"
  have c1: "fst (validateAndConsume sample_cfg 10 ann forget_password (js ''123456'') sample_codes)"
    by (simp add: validateAndConsume_def current_def for_pair_def sample_codes_eq expired_def
        sample_cfg_def)
  then have s1: "validateAndConsume sample_cfg 10 ann forget_password (js ''123456'')
      sample_codes = (True, ?s1)"
    by (simp add: prod_eq_iff)
  have t: "current ann forget_password sample_codes = Some (hd sample_codes)
      \<and> terminal sample_cfg 601 (hd sample_codes) \<and> (601::nat) \<le> 601"
    by (simp add: sample_current) (simp add: sample_codes_eq terminal_def expired_def)
  have x: "current ann forget_password ?s5 = Some (hd ?s5)
      \<and> terminal sample_cfg 6 (hd ?s5) \<and> (6::nat) \<le> 6"
    unfolding after_wrong_guesses
    by (simp add: current_def for_pair_def terminal_def sample_cfg_def)
  note consumed_case = terminal_states_absorbing [where s = sample_codes and now = 10
      and calls = "[]" and now'' = 20 and c' = "js ''123456''",
      THEN conjunct2, rule_format, OF s1, THEN conjunct2]
  note expired_case = terminal_states_absorbing [where now' = 601 and calls = "[]"
      and c = "js ''123456''", THEN conjunct1, rule_format, OF t, THEN conjunct2]
  note exhausted_case = terminal_states_absorbing [where now' = 6 and calls = "[]"
      and c = "js ''123456''", THEN conjunct1, rule_format, OF x, THEN conjunct2]
  from c1 consumed_case expired_case exhausted_case show ?thesis by simp
qed

section \<open>One-time codes: one active code per pair\<close>

lemma filter_update_first_le:
  "(\<And>x. Q (f x) \<Longrightarrow> Q x) \<Longrightarrow> length (filter Q (update_first P f xs)) \<le> length (filter Q xs)"
  by (induction xs) auto

lemma active_codes_mono:
  "t \<le> t' \<Longrightarrow> length (active_codes t' e p s) \<le> length (active_codes t e p s)"
  unfolding active_codes_def
  by (induction s) (auto simp add: active_def expired_def)

lemma active_codes_validate:
  "length (active_codes t e p (snd (validateAndConsume cfg now e2 p2 c s)))
     \<le> length (active_codes t e p s)"
  unfolding active_codes_def
  by (auto simp add: validateAndConsume_def for_pair_def active_def expired_def
      intro!: filter_update_first_le split: option.splits)

lemma issue_store:
  "snd (snd (issue cfg now draw ok e p s)) =
     \<lparr>otc_email = e, otc_purpose = p, otc_code = sixDigits draw, otc_issuedAt = now,
      otc_expiresAt = now + cfg_ttl cfg, otc_consumed = False, otc_attempts = 0\<rparr>
     # map (\<lambda>r. if for_pair e p r \<and> active now r then r\<lparr>otc_consumed := True\<rparr> else r) s"
  by (simp add: issue_def Let_def)

lemma old_codes_inactive:
  "now \<le> t \<Longrightarrow>
   filter (\<lambda>r. for_pair e p r \<and> active t r)
     (map (\<lambda>r. if for_pair e p r \<and> active now r then r\<lparr>otc_consumed := True\<rparr> else r) s) = []"
  by (induction s) (auto simp add: for_pair_def active_def expired_def)

lemma other_codes_kept:
  "(e2, p2) \<noteq> (e, p) \<Longrightarrow>
   filter (\<lambda>r. for_pair e p r \<and> active t r)
     (map (\<lambda>r. if for_pair e2 p2 r \<and> active now r then r\<lparr>otc_consumed := True\<rparr> else r) s)
   = filter (\<lambda>r. for_pair e p r \<and> active t r) s"
  by (induction s) (auto simp add: for_pair_def)

lemma active_codes_issue:
  assumes "now \<le> t" and "length (active_codes t e p s) \<le> 1"
  shows "length (active_codes t e p (snd (snd (issue cfg now draw ok e2 p2 s)))) \<le> 1"
proof (cases "(e2, p2) = (e, p)")
  case True
  with assms(1) show ?thesis
    by (simp add: issue_store active_codes_def old_codes_inactive)
next
  case False
  then have "\<not> for_pair e p \<lparr>otc_email = e2, otc_purpose = p2, otc_code = sixDigits draw,
      otc_issuedAt = now, otc_expiresAt = now + cfg_ttl cfg, otc_consumed = False,
      otc_attempts = 0\<rparr>"
    by (auto simp add: for_pair_def)
  with False assms(2) show ?thesis
    by (simp add: issue_store active_codes_def other_codes_kept)
qed

lemma active_codes_step:
  assumes "op_time ev \<le> t" and "length (active_codes t e p s) \<le> 1"
  shows "length (active_codes t e p (step cfg ev s)) \<le> 1"
proof (cases ev)
  case (Issue now draw ok e2 p2)
  with assms(1) have "now \<le> t" by simp
  from active_codes_issue [OF this assms(2)] Issue show ?thesis by simp
next
  case (Validate now e2 p2 c)
  with assms(2) active_codes_validate [of t e p cfg now e2 p2 c s] show ?thesis by simp
qed

lemma active_codes_run:
  assumes "\<forall>ev \<in> set evs. op_time ev \<le> t" and "length (active_codes t e p s) \<le> 1"
  shows "length (active_codes t e p (run cfg evs s)) \<le> 1"
  using assms
proof (induction evs arbitrary: s)
  case Nil
  then show ?case by simp
next
  case (Cons ev evs)
  from Cons.prems have "op_time ev \<le> t" by simp
  from active_codes_step [OF this Cons.prems(2)]
  have "length (active_codes t e p (step cfg ev s)) \<le> 1" .
  with Cons.IH Cons.prems(1) show ?case by simp
qed

lemma mismatch_rejected:
  "fst (validateAndConsume cfg t e p c (snd (snd (issue cfg now draw ok e p s))))
     = (c = sixDigits draw \<and> \<not> expired t (hd (snd (snd (issue cfg now draw ok e p s))))
        \<and> 0 < cfg_cap cfg)"
  by (auto simp add: validateAndConsume_def issue_store current_def for_pair_def)

lemma code_preserved:
  assumes "current e p s = Some r"
  shows "\<exists>r'. current e p (snd (validateAndConsume cfg now2 e2 p2 c2 s)) = Some r'
           \<and> otc_code r' = otc_code r"
proof (cases "(e2, p2) = (e, p)")
  case True
  with assms show ?thesis
    by (auto simp add: validateAndConsume_def current_update_same)
next
  case False
  then have "current e p (snd (validateAndConsume cfg now2 e2 p2 c2 s)) = current e p s"
    by (auto simp add: validateAndConsume_def current_update_other split: option.splits)
  with assms show ?thesis by simp
qed

lemma code_validateAll:
  assumes "current e p s = Some r"
  shows "\<exists>r'. current e p (validateAll cfg calls s) = Some r' \<and> otc_code r' = otc_code r"
  using assms
proof (induction calls arbitrary: s r)
  case Nil
  then show ?case by simp
next
  case (Cons call calls)
  obtain now2 e2 p2 c2 where call: "call = (now2, e2, p2, c2)"
    by (cases call) auto
  from code_preserved [OF Cons.prems, of cfg now2 e2 p2 c2]
  obtain r1 where r1: "current e p (snd (validateAndConsume cfg now2 e2 p2 c2 s)) = Some r1"
    and c1: "otc_code r1 = otc_code r" by blast
  from Cons.IH [OF r1] c1 call show ?case by simp
qed

lemma wrong_code_rejected:
  assumes "current e p s = Some r" and "c \<noteq> otc_code r"
  shows "\<not> fst (validateAndConsume cfg t e p c s)"
  using assms by (simp add: validateAndConsume_def)

lemma current_issue:
  "current e p (snd (snd (issue cfg now draw ok e p s))) =
     Some (hd (snd (snd (issue cfg now draw ok e p s))))"
  by (simp add: issue_store current_def for_pair_def)

lemma code_issue: "otc_code (hd (snd (snd (issue cfg now draw ok e p s)))) = sixDigits draw"
  by (simp add: issue_store)

lemma validate_decided_by_current:
  "fst (validateAndConsume cfg t e p c st) = (\<exists>r. current e p st = Some r \<and> accepts cfg t c r)"
  by (auto simp add: validateAndConsume_def accepts_def split: option.splits)

lemma filter_update_first_other:
  "(\<And>x. P x \<Longrightarrow> \<not> Q x \<and> \<not> Q (f x)) \<Longrightarrow> filter Q (update_first P f xs) = filter Q xs"
  by (induction xs) auto

lemma validate_head_kept:
  assumes "for_pair e p x"
  shows "\<exists>x' xs'. snd (validateAndConsume cfg now e2 p2 c (x # xs)) = x' # xs'
           \<and> for_pair e p x' \<and> otc_code x' = otc_code x \<and> otc_issuedAt x' = otc_issuedAt x
           \<and> filter (for_pair e p) xs' = filter (for_pair e p) xs"
proof (cases "(e2, p2) = (e, p)")
  case True
  with assms show ?thesis
    by (auto simp add: validateAndConsume_def current_def for_pair_def)
next
  case False
  with assms have n: "\<not> for_pair e2 p2 x"
    by (auto simp add: for_pair_def)
  have k: "filter (for_pair e p) (update_first (for_pair e2 p2) f xs) = filter (for_pair e p) xs"
    if "\<And>r. otc_email (f r) = otc_email r \<and> otc_purpose (f r) = otc_purpose r" for f
    using False that by (intro filter_update_first_other) (auto simp add: for_pair_def)
  from n assms show ?thesis
    by (auto simp add: validateAndConsume_def current_def k split: option.splits)
qed

lemma validateAll_head_kept:
  assumes "for_pair e p x"
  shows "\<exists>x' xs'. validateAll cfg calls (x # xs) = x' # xs'
           \<and> for_pair e p x' \<and> otc_code x' = otc_code x \<and> otc_issuedAt x' = otc_issuedAt x
           \<and> filter (for_pair e p) xs' = filter (for_pair e p) xs"
  using assms
proof (induction calls arbitrary: x xs)
  case Nil
  then show ?case by simp
next
  case (Cons call calls)
  obtain now2 e2 p2 c2 where call: "call = (now2, e2, p2, c2)"
    by (cases call) auto
  from validate_head_kept [OF Cons.prems, of cfg now2 e2 p2 c2 xs]
  obtain x1 xs1 where s: "snd (validateAndConsume cfg now2 e2 p2 c2 (x # xs)) = x1 # xs1"
    and p1: "for_pair e p x1" and c1: "otc_code x1 = otc_code x"
    and i1: "otc_issuedAt x1 = otc_issuedAt x"
    and f1: "filter (for_pair e p) xs1 = filter (for_pair e p) xs"
    by blast
  from Cons.IH [OF p1, of xs1] c1 i1 f1 s call show ?case by simp
qed

lemma earlier_codes_invalidated:
  "filter (for_pair e p)
     (map (\<lambda>r. if for_pair e p r \<and> active now r then r\<lparr>otc_consumed := True\<rparr> else r) s)
   = map (invalidated now) (filter (for_pair e p) s)"
  by (induction s) (auto simp add: for_pair_def invalidated_def)

lemma invalidated_rejected: "now \<le> t \<Longrightarrow> \<not> accepts cfg t c (invalidated now r)"
  by (auto simp add: accepts_def invalidated_def active_def expired_def)

lemma after_issue_and_validations:
  "\<exists>x' xs'. validateAll cfg calls (snd (snd (issue cfg now draw ok e p s))) = x' # xs'
     \<and> for_pair e p x' \<and> otc_code x' = sixDigits draw \<and> otc_issuedAt x' = now
     \<and> filter (for_pair e p) xs' = map (invalidated now) (filter (for_pair e p) s)"
proof -
  let ?fresh = "\<lparr>otc_email = e, otc_purpose = p, otc_code = sixDigits draw, otc_issuedAt = now,
      otc_expiresAt = now + cfg_ttl cfg, otc_consumed = False, otc_attempts = 0\<rparr>"
  have "for_pair e p ?fresh" by (simp add: for_pair_def)
  from validateAll_head_kept [OF this, of cfg calls
      "map (\<lambda>r. if for_pair e p r \<and> active now r then r\<lparr>otc_consumed := True\<rparr> else r) s"]
  obtain x' xs' where "validateAll cfg calls (?fresh #
      map (\<lambda>r. if for_pair e p r \<and> active now r then r\<lparr>otc_consumed := True\<rparr> else r) s)
      = x' # xs'"
    and "for_pair e p x'" and "otc_code x' = sixDigits draw" and "otc_issuedAt x' = now"
    and "filter (for_pair e p) xs' = filter (for_pair e p)
      (map (\<lambda>r. if for_pair e p r \<and> active now r then r\<lparr>otc_consumed := True\<rparr> else r) s)"
    by auto
  then show ?thesis
    unfolding issue_store earlier_codes_invalidated by blast
qed


lemma success_spends_head:
  assumes "for_pair e p x" and "fst (validateAndConsume cfg t e p c (x # xs))"
  shows "snd (validateAndConsume cfg t e p c (x # xs)) = x\<lparr>otc_consumed := True\<rparr> # xs"
  using assms
  by (auto simp add: validateAndConsume_def current_def split: if_splits)

text \<open>
  C4. In the store reached from the empty store by any history of issuer events, each
  pair has at most one active code at every time not before the events. \<open>issue\<close>
  marks every pre-existing active code of its pair consumed, so from the time of the
  issue on the only code of the pair that can be active is the new one. After an issue
  and any validations that follow it: the result of a validation is decided by the
  record it looks at, which for the pair is the newly issued code; every earlier code
  instance of the pair is still stored as the issue left it, consumed if it was active,
  and is rejected for every submitted value, its own included, at every time from the
  issue on, also when it is otherwise unexpired; a validation that succeeds spends the
  new code; and every submitted value other than the new code's is refused.
\<close>

theorem one_active_code_per_pair:
  "((\<forall>ev \<in> set evs. op_time ev \<le> t) \<longrightarrow>
      length (active_codes t e p (run cfg evs [])) \<le> 1)
   \<and> (\<forall>r \<in> set s. for_pair e p r \<and> active now r \<longrightarrow>
        r\<lparr>otc_consumed := True\<rparr> \<in> set (snd (snd (issue cfg now draw ok e p s))))
   \<and> (now \<le> t \<longrightarrow>
        set (active_codes t e p (snd (snd (issue cfg now draw ok e p s))))
          \<subseteq> {hd (snd (snd (issue cfg now draw ok e p s)))})
   \<and> (c \<noteq> sixDigits draw \<longrightarrow>
        \<not> fst (validateAndConsume cfg t' e p c
                (validateAll cfg calls (snd (snd (issue cfg now draw ok e p s))))))
   \<and> fst (validateAndConsume cfg t' e p c st)
        = (\<exists>r. current e p st = Some r \<and> accepts cfg t' c r)
   \<and> (current e p (validateAll cfg calls (snd (snd (issue cfg now draw ok e p s))))
         = Some (hd (validateAll cfg calls (snd (snd (issue cfg now draw ok e p s)))))
       \<and> otc_issuedAt (hd (validateAll cfg calls (snd (snd (issue cfg now draw ok e p s)))))
           = now
       \<and> otc_code (hd (validateAll cfg calls (snd (snd (issue cfg now draw ok e p s)))))
           = sixDigits draw)
   \<and> filter (for_pair e p)
         (tl (validateAll cfg calls (snd (snd (issue cfg now draw ok e p s)))))
       = map (invalidated now) (filter (for_pair e p) s)
   \<and> (\<forall>r \<in> set s. for_pair e p r \<longrightarrow>
        invalidated now r
          \<in> set (tl (validateAll cfg calls (snd (snd (issue cfg now draw ok e p s)))))
        \<and> (now \<le> t \<longrightarrow> (\<forall>v. \<not> accepts cfg t v (invalidated now r))))
   \<and> (now \<le> t \<longrightarrow>
        (\<forall>r \<in> set (tl (validateAll cfg calls (snd (snd (issue cfg now draw ok e p s))))).
           for_pair e p r \<longrightarrow> (\<forall>v. \<not> accepts cfg t v r)))
   \<and> (fst (validateAndConsume cfg t' e p c
               (validateAll cfg calls (snd (snd (issue cfg now draw ok e p s))))) \<longrightarrow>
        snd (validateAndConsume cfg t' e p c
               (validateAll cfg calls (snd (snd (issue cfg now draw ok e p s)))))
          = (hd (validateAll cfg calls (snd (snd (issue cfg now draw ok e p s)))))
              \<lparr>otc_consumed := True\<rparr>
            # tl (validateAll cfg calls (snd (snd (issue cfg now draw ok e p s)))))"
proof -
  let ?s' = "snd (snd (issue cfg now draw ok e p s))"
  let ?s3 = "validateAll cfg calls ?s'"
  from after_issue_and_validations [of cfg calls now draw ok e p s]
  obtain x' xs' where s3: "?s3 = x' # xs'" and px: "for_pair e p x'"
    and cx: "otc_code x' = sixDigits draw" and ix: "otc_issuedAt x' = now"
    and old: "filter (for_pair e p) xs' = map (invalidated now) (filter (for_pair e p) s)"
    by blast
  have hist: "(\<forall>ev \<in> set evs. op_time ev \<le> t) \<longrightarrow>
      length (active_codes t e p (run cfg evs [])) \<le> 1"
  proof
    assume "\<forall>ev \<in> set evs. op_time ev \<le> t"
    moreover have "length (active_codes t e p []) \<le> 1"
      by (simp add: active_codes_def)
    ultimately show "length (active_codes t e p (run cfg evs [])) \<le> 1"
      by (rule active_codes_run)
  qed
  have marks: "\<forall>r \<in> set s. for_pair e p r \<and> active now r \<longrightarrow>
      r\<lparr>otc_consumed := True\<rparr> \<in> set ?s'"
    by (auto simp add: issue_store)
  have only_new: "now \<le> t \<longrightarrow> set (active_codes t e p ?s') \<subseteq> {hd ?s'}"
    by (simp add: issue_store active_codes_def old_codes_inactive)
  have cur: "current e p ?s3 = Some (hd ?s3)"
    using s3 px by (simp add: current_def)
  have other_value: "c \<noteq> sixDigits draw \<longrightarrow> \<not> fst (validateAndConsume cfg t' e p c ?s3)"
  proof
    assume "c \<noteq> sixDigits draw"
    with s3 cx have "c \<noteq> otc_code (hd ?s3)" by simp
    from wrong_code_rejected [OF cur this]
    show "\<not> fst (validateAndConsume cfg t' e p c ?s3)" .
  qed
  have link: "fst (validateAndConsume cfg t' e p c st)
      = (\<exists>r. current e p st = Some r \<and> accepts cfg t' c r)"
    by (rule validate_decided_by_current)
  have newest: "current e p ?s3 = Some (hd ?s3) \<and> otc_issuedAt (hd ?s3) = now
      \<and> otc_code (hd ?s3) = sixDigits draw"
    using cur s3 cx ix by simp
  have kept: "filter (for_pair e p) (tl ?s3) = map (invalidated now) (filter (for_pair e p) s)"
    using s3 old by simp
  have tail_rejected: "now \<le> t \<longrightarrow>
      (\<forall>r \<in> set (tl ?s3). for_pair e p r \<longrightarrow> (\<forall>v. \<not> accepts cfg t v r))"
  proof (intro impI ballI allI)
    fix r v
    assume t: "now \<le> t" and "r \<in> set (tl ?s3)" and "for_pair e p r"
    then have "r \<in> set (filter (for_pair e p) (tl ?s3))" by simp
    with kept obtain r0 where "r = invalidated now r0" by auto
    with t show "\<not> accepts cfg t v r" by (simp add: invalidated_rejected)
  qed
  have first: "\<forall>r \<in> set s. for_pair e p r \<longrightarrow>
      invalidated now r \<in> set (tl ?s3)
      \<and> (now \<le> t \<longrightarrow> (\<forall>v. \<not> accepts cfg t v (invalidated now r)))"
  proof (intro ballI impI conjI allI)
    fix r
    assume "r \<in> set s" and "for_pair e p r"
    then have "invalidated now r \<in> set (map (invalidated now) (filter (for_pair e p) s))"
      by simp
    with kept have "invalidated now r \<in> set (filter (for_pair e p) (tl ?s3))" by simp
    then show "invalidated now r \<in> set (tl ?s3)" by simp
  next
    fix r v
    assume "now \<le> t"
    then show "\<not> accepts cfg t v (invalidated now r)" by (rule invalidated_rejected)
  qed
  have spends: "fst (validateAndConsume cfg t' e p c ?s3) \<longrightarrow>
      snd (validateAndConsume cfg t' e p c ?s3) = (hd ?s3)\<lparr>otc_consumed := True\<rparr> # tl ?s3"
    using success_spends_head [OF px, of cfg t' c xs'] s3 by simp
  from hist marks only_new other_value link newest kept first tail_rejected spends
  show ?thesis by blast
qed


theorem one_active_code_per_pair_witness:
  "length (active_codes 10 ann forget_password (run sample_cfg reissue_events [])) \<le> 1
   \<and> \<not> fst (validateAndConsume sample_cfg 10 ann forget_password (js ''123456'')
        (snd (snd (issue sample_cfg 5 654321 True ann forget_password sample_codes))))
   \<and> invalidated 5 (hd sample_codes) \<in> set (tl reissued_same)
   \<and> otc_code (invalidated 5 (hd sample_codes)) = js ''123456''
   \<and> \<not> expired 10 (invalidated 5 (hd sample_codes))
   \<and> \<not> accepts sample_cfg 10 (js ''123456'') (invalidated 5 (hd sample_codes))"
proof -
  have ev: "\<forall>ev \<in> set reissue_events. op_time ev \<le> 10"
    by (simp add: reissue_events_def)
  have c: "js ''123456'' \<noteq> sixDigits 654321"
    by (simp add: sixDigits_def js_def)
  have m: "hd sample_codes \<in> set sample_codes"
    by (simp add: sample_codes_eq)
  have f: "for_pair ann forget_password (hd sample_codes)"
    by (simp add: sample_codes_eq for_pair_def)
  have le: "(5::nat) \<le> 10" by simp
  note other = one_active_code_per_pair [where evs = reissue_events and t = 10
      and draw = 654321 and c = "js ''123456''" and calls = "[]"]
  note same = one_active_code_per_pair [where cfg = sample_cfg and e = ann
      and p = forget_password and s = sample_codes and now = 5 and draw = 123456
      and ok = True and calls = "[]" and t = 10]
  from same have "\<forall>r \<in> set sample_codes. for_pair ann forget_password r \<longrightarrow>
      invalidated 5 r \<in> set (tl (validateAll sample_cfg []
          (snd (snd (issue sample_cfg 5 123456 True ann forget_password sample_codes)))))
      \<and> ((5::nat) \<le> 10 \<longrightarrow> (\<forall>v. \<not> accepts sample_cfg 10 v (invalidated 5 r)))"
    by blast
  with m f le have i: "invalidated 5 (hd sample_codes) \<in> set (tl reissued_same)"
    and a: "\<not> accepts sample_cfg 10 (js ''123456'') (invalidated 5 (hd sample_codes))"
    by (auto simp add: reissued_same_def)
  have v: "otc_code (invalidated 5 (hd sample_codes)) = js ''123456''"
    by (simp add: sample_codes_eq invalidated_def)
  have x: "\<not> expired 10 (invalidated 5 (hd sample_codes))"
    by (simp add: sample_codes_eq invalidated_def expired_def)
  from other [THEN conjunct1, THEN mp, OF ev]
    other [THEN conjunct2, THEN conjunct2, THEN conjunct2, THEN conjunct1, THEN mp, OF c]
    i a v x
  show ?thesis by simp
qed

text \<open>
  Remark. A submitted value is compared with the newest record of the pair only. In the
  sample where the second draw repeats the first value, the first instance is consumed
  by the second issue, and a submission of that value is decided by the second instance
  and spends it.
\<close>

lemma coinciding_value_spends_second:
  "fst (validateAndConsume sample_cfg 10 ann forget_password (js ''123456'') reissued_same)
   \<and> map otc_issuedAt reissued_same = [5, 0]
   \<and> map otc_consumed reissued_same = [False, True]
   \<and> map otc_consumed (snd (validateAndConsume sample_cfg 10 ann forget_password
        (js ''123456'') reissued_same)) = [True, True]"
  by (simp add: reissued_same_def issue_store sample_codes_eq sixDigits_123456
      validateAndConsume_def current_def for_pair_def active_def expired_def sample_cfg_def)


section \<open>Recovery: the reset request\<close>

lemma requestReset_response: "fst (requestReset cfg env email st) = Accepted202"
  by (simp add: requestReset_def issue_def Let_def split: option.splits)

lemma requestReset_absent:
  "findByEmail (st_users st) email = None \<Longrightarrow> snd (requestReset cfg env email st) = st"
  by (simp add: requestReset_def)

lemma requestReset_present:
  assumes "findByEmail (st_users st) email = Some u"
  shows "st_outbox (snd (requestReset cfg env email st))
           = st_outbox st @ [(email, sixDigits (env_draw env))]
       \<and> current email forget_password (st_codes (snd (requestReset cfg env email st)))
           = Some \<lparr>otc_email = email, otc_purpose = forget_password,
                    otc_code = sixDigits (env_draw env), otc_issuedAt = env_now env,
                    otc_expiresAt = env_now env + cfg_ttl cfg, otc_consumed = False,
                    otc_attempts = 0\<rparr>"
  using assms
  by (simp add: requestReset_def issue_def Let_def current_def for_pair_def)

lemma ALL_route_parts:
  "fst (ALL_route h req w) = fst (h req w)
   \<and> fst (snd (ALL_route h req w))
       = [Log (''[HANDLER] request received: '' @ req_method req @ '' '' @ req_url req)]
   \<and> snd (snd (ALL_route h req w)) = snd (h req w)"
  by (simp add: ALL_route_def split: prod.splits)

lemma sample_validates:
  "fst (validateAndConsume sample_cfg 10 ann forget_password (js ''123456'') sample_codes)"
  by (simp add: validateAndConsume_def current_def for_pair_def sample_codes_eq expired_def
      sample_cfg_def)

lemma sample_account: "findByEmail [sample_user] ann = Some sample_user"
  by (simp add: findByEmail_def sample_user_def sameEmail_def)

lemma sample_no_account: "findByEmail [sample_user] (js ''nobody@x.com'') = None"
  by (simp add: findByEmail_def sample_user_def sameEmail_def ann_def js_def lowerUnit_def)

lemma sample_lookup: "lookup 10 sample_sessions (js ''t1'') = Some (hd sample_sessions)"
  by (simp add: lookup_def sample_sessions_def)

text \<open>
  C6. The reset request, served through the catch-all route, responds 202 with the
  uniform message for every email, every store and every environment: two runs that
  differ in whether the account exists (or in anything else of the state) give the same
  response and the same route log. When the account is absent the state is unchanged:
  no code is issued and nothing is dispatched. When it is present, one message with
  the new code is handed to the dispatcher.
\<close>

theorem reset_request_uniform:
  "fst (ALL_route (otp_send cfg env) req st) = Accepted202
   \<and> fst (ALL_route (otp_send cfg env) req st) = fst (ALL_route (otp_send cfg env') req st')
   \<and> fst (snd (ALL_route (otp_send cfg env) req st))
       = fst (snd (ALL_route (otp_send cfg env') req st'))
   \<and> (findByEmail (st_users st) (os_email (req_payload req)) = None \<longrightarrow>
        snd (snd (ALL_route (otp_send cfg env) req st)) = st)
   \<and> (findByEmail (st_users st) (os_email (req_payload req)) \<noteq> None \<longrightarrow>
        st_outbox (snd (snd (ALL_route (otp_send cfg env) req st)))
          = st_outbox st @ [(os_email (req_payload req), sixDigits (env_draw env))])"
  using requestReset_present [of st "os_email (req_payload req)" _ cfg env]
  by (auto simp add: ALL_route_parts otp_send_def requestReset_response requestReset_absent)

theorem reset_request_uniform_witness:
  "fst (ALL_route (otp_send sample_cfg sample_env) (otp_send_request ''a@x.com'') sample_state)
     = fst (ALL_route (otp_send sample_cfg sample_env) (otp_send_request ''nobody@x.com'')
              sample_state)
   \<and> snd (snd (ALL_route (otp_send sample_cfg sample_env) (otp_send_request ''nobody@x.com'')
              sample_state)) = sample_state
   \<and> st_outbox (snd (snd (ALL_route (otp_send sample_cfg sample_env)
              (otp_send_request ''a@x.com'') sample_state))) = [(ann, js ''123456'')]"
proof -
  have absent: "findByEmail (st_users sample_state)
      (os_email (req_payload (otp_send_request ''nobody@x.com''))) = None"
    by (simp add: sample_state_def otp_send_request_def sample_no_account)
  have present: "findByEmail (st_users sample_state)
      (os_email (req_payload (otp_send_request ''a@x.com''))) \<noteq> None"
    using sample_account by (simp add: sample_state_def otp_send_request_def ann_def)
  note a = reset_request_uniform [where cfg = sample_cfg and env = sample_env
      and req = "otp_send_request ''nobody@x.com''" and st = sample_state]
  note b = reset_request_uniform [where cfg = sample_cfg and env = sample_env
      and req = "otp_send_request ''a@x.com''" and st = sample_state]
  from a [THEN conjunct1] b [THEN conjunct1]
  have "fst (ALL_route (otp_send sample_cfg sample_env) (otp_send_request ''a@x.com'')
      sample_state)
     = fst (ALL_route (otp_send sample_cfg sample_env) (otp_send_request ''nobody@x.com'')
              sample_state)"
    by simp
  moreover from a absent
  have "snd (snd (ALL_route (otp_send sample_cfg sample_env)
      (otp_send_request ''nobody@x.com'') sample_state)) = sample_state"
    by blast
  moreover from b present
  have "st_outbox (snd (snd (ALL_route (otp_send sample_cfg sample_env)
      (otp_send_request ''a@x.com'') sample_state)))
      = st_outbox sample_state @ [(os_email (req_payload (otp_send_request ''a@x.com'')),
          sixDigits (env_draw sample_env))]"
    by blast
  then have "st_outbox (snd (snd (ALL_route (otp_send sample_cfg sample_env)
      (otp_send_request ''a@x.com'') sample_state))) = [(ann, js ''123456'')]"
    by (simp add: sample_state_def otp_send_request_def sample_env_def sixDigits_123456 ann_def)
  ultimately show ?thesis by blast
qed

section \<open>Recovery: the commit\<close>

lemma find_map_same:
  "(\<And>x. P (f x) = P x) \<Longrightarrow> find P (map f xs) = map_option f (find P xs)"
  by (induction xs) auto

lemma find_Some_holds: "find P xs = Some x \<Longrightarrow> P x"
  by (induction xs) (auto split: if_splits)

lemma findByEmail_updatePassword:
  assumes "findByEmail users email = Some u"
  shows "findByEmail (updatePassword users (u_id u) h) email = Some (u\<lparr>u_passwordHash := h\<rparr>)"
proof -
  let ?f = "\<lambda>v. if u_id v = u_id u then v\<lparr>u_passwordHash := h\<rparr> else v"
  have "find (\<lambda>v. sameEmail (u_email v) email) (map ?f users)
      = map_option ?f (find (\<lambda>v. sameEmail (u_email v) email) users)"
    by (rule find_map_same) simp
  with assms show ?thesis
    by (simp add: findByEmail_def updatePassword_def)
qed

lemma find_filter_removed:
  assumes "distinct (map key xs)" and "find (\<lambda>x. key x = k) xs = Some x" and "\<not> keep x"
  shows "find (\<lambda>x. key x = k) (filter keep xs) = None"
  using assms
proof (induction xs)
  case Nil
  then show ?case by simp
next
  case (Cons y ys)
  show ?case
  proof (cases "key y = k")
    case True
    with Cons.prems have "y = x" by simp
    from Cons.prems(1) have "key y \<notin> key ` set ys" by simp
    with True have "\<forall>z \<in> set ys. key z \<noteq> k" by blast
    then have "find (\<lambda>x. key x = k) (filter keep ys) = None"
      by (simp add: find_None_iff)
    with True \<open>y = x\<close> Cons.prems(3) show ?thesis by simp
  next
    case False
    with Cons show ?thesis by simp
  qed
qed

lemma lookup_after_sweep:
  assumes "distinct (map s_token sessions)" and "lookup t sessions token = Some s"
    and "s_userId s = uid" and "\<not> fails token"
  shows "lookup t' (snd (invalidateAll fails uid sessions)) token = None"
proof -
  from assms(2) have f: "find (\<lambda>s. s_token s = token) sessions = Some s"
    by (simp add: lookup_def split: option.splits if_splits)
  then have "s_token s = token" by (rule find_Some_holds [where P = "\<lambda>s. s_token s = token"])
  with assms(3,4) have "\<not> (s_userId s \<noteq> uid \<or> fails (s_token s))" by simp
  from find_filter_removed [OF assms(1) f, of "\<lambda>s. s_userId s \<noteq> uid \<or> fails (s_token s)", OF this]
  show ?thesis
    by (simp add: lookup_def invalidateAll_def Let_def)
qed

lemma commitReset_success:
  assumes "commitReset cfg env email code pw st = (Success200, st')"
  shows "\<exists>u. 8 \<le> length pw
    \<and> fst (validateAndConsume cfg (env_now env) email forget_password code (st_codes st))
    \<and> findByEmail (st_users st) email = Some u
    \<and> env_write_ok env
    \<and> st_users st' = updatePassword (st_users st) (u_id u) (env_hash env pw)
    \<and> st_sessions st' = snd (invalidateAll (env_sweep_fails env) (u_id u) (st_sessions st))"
  using assms
  by (auto simp add: commitReset_def Let_def split: if_splits prod.splits option.splits)

lemma commitReset_success_iff:
  "(fst (commitReset cfg env email code pw st) = Success200) =
     (8 \<le> length pw
      \<and> fst (validateAndConsume cfg (env_now env) email forget_password code (st_codes st))
      \<and> findByEmail (st_users st) email \<noteq> None
      \<and> env_write_ok env)"
  by (auto simp add: commitReset_def Let_def split: if_splits prod.splits option.splits)

lemma stuck_sweep_keeps_all: "snd (invalidateAll (\<lambda>t. True) uid sessions) = sessions"
  by (simp add: invalidateAll_def)

lemma commitReset_success_state:
  assumes "commitReset cfg env email code pw st = (Success200, st')"
  shows "\<exists>u. findByEmail (st_users st) email = Some u
    \<and> st_users st' = updatePassword (st_users st) (u_id u) (env_hash env pw)
    \<and> st_sessions st'
        = filter (\<lambda>s. s_userId s \<noteq> u_id u \<or> env_sweep_fails env (s_token s)) (st_sessions st)
    \<and> st_codes st'
        = snd (validateAndConsume cfg (env_now env) email forget_password code (st_codes st))
    \<and> st_outbox st' = st_outbox st
    \<and> st_log st' = st_log st @
          (if list_ex (\<lambda>s. s_userId s = u_id u) (st_sessions st')
           then [Error ''session sweep incomplete''] else [])"
  using assms
  by (auto simp add: commitReset_def invalidateAll_def Let_def
      split: if_splits prod.splits option.splits)

lemma commitReset_write_failure:
  assumes "8 \<le> length pw"
    and "fst (validateAndConsume cfg (env_now env) email forget_password code (st_codes st))"
    and "findByEmail (st_users st) email \<noteq> None"
    and "\<not> env_write_ok env"
  shows "commitReset cfg env email code pw st =
     (StoreUnavailable,
      st\<lparr>st_codes :=
           snd (validateAndConsume cfg (env_now env) email forget_password code (st_codes st)),
         st_log := st_log st @ [Error ''credential write failed'']\<rparr>)"
  using assms
  by (auto simp add: commitReset_def Let_def split: prod.splits option.splits)

lemma commitReset_rejections:
  "(length pw < 8 \<longrightarrow> commitReset cfg env email code pw st = (ValidationError, st))
   \<and> (8 \<le> length pw
        \<and> (\<not> fst (validateAndConsume cfg (env_now env) email forget_password code (st_codes st))
            \<or> findByEmail (st_users st) email = None) \<longrightarrow>
        commitReset cfg env email code pw st =
          (InvalidOrExpiredCode,
           st\<lparr>st_codes := snd (validateAndConsume cfg (env_now env) email forget_password
                                 code (st_codes st))\<rparr>))"
  by (auto simp add: commitReset_def Let_def split: prod.splits option.splits)


text \<open>
  C5, as the claim states it, fails when the sweep of the sessions is incomplete: the
  commit responds success, and the token \<open>t1\<close>, which resolved to the user before the
  reset, still resolves to the user afterwards.
\<close>

theorem sessions_invalidated_counterexample:
  "fst (commitReset sample_cfg stuck_sweep_env ann (js ''123456'') (js ''longenough1'')
          sample_state) = Success200
   \<and> map_option s_userId (lookup 10 (st_sessions sample_state) (js ''t1''))
       = Some (u_id sample_user)
   \<and> map_option s_userId (lookup 10 (st_sessions (snd (commitReset sample_cfg stuck_sweep_env
          ann (js ''123456'') (js ''longenough1'') sample_state))) (js ''t1''))
       = Some (u_id sample_user)"
proof -
  let ?r = "commitReset sample_cfg stuck_sweep_env ann (js ''123456'') (js ''longenough1'')
      sample_state"
  have s: "fst ?r = Success200"
    unfolding commitReset_success_iff
    using sample_validates sample_account
    by (simp add: stuck_sweep_env_def sample_env_def sample_state_def js_def)
  then have "?r = (Success200, snd ?r)"
    by (simp add: prod_eq_iff)
  from commitReset_success [OF this]
  have "st_sessions (snd ?r) = sample_sessions"
    by (auto simp add: stuck_sweep_env_def sample_env_def sample_state_def
        stuck_sweep_keeps_all)
  moreover have "map_option s_userId (lookup 10 sample_sessions (js ''t1''))
      = Some (u_id sample_user)"
    by (simp add: sample_lookup) (simp add: sample_sessions_def sample_user_def)
  ultimately show ?thesis
    using s by (simp add: sample_state_def)
qed


text \<open>
  C5 (amended). A \<open>commitReset\<close> responds success exactly when the password has length
  8 at least, \<open>validateAndConsume\<close> returned true, the account exists and the
  credential write succeeded, so never without the write. When it responds success, the
  account found by the email carries the hash of the new password, and the sessions of
  that user have been swept: the tokens of the Session Store being distinct, every token
  that resolved to that user before the reset and whose invalidation did not fail
  resolves to absent afterwards, at every time. The state after a success is the state
  before with the code spent, the password written, the sessions of the user removed
  except those whose invalidation failed, and an incomplete sweep logged. When the write
  fails, \<open>StoreUnavailable\<close> is responded, the code is spent, the failure is logged and
  nothing else changes; the other failures leave users, sessions and log as they were.
\<close>

theorem commit_reset_effects:
  "(commitReset cfg env email code pw st = (Success200, st') \<longrightarrow>
      fst (validateAndConsume cfg (env_now env) email forget_password code (st_codes st))
      \<and> env_write_ok env
      \<and> (\<exists>u. findByEmail (st_users st) email = Some u
            \<and> findByEmail (st_users st') email
                = Some (u\<lparr>u_passwordHash := env_hash env pw\<rparr>)
            \<and> (\<forall>token s. distinct (map s_token (st_sessions st))
                  \<and> lookup t (st_sessions st) token = Some s
                  \<and> s_userId s = u_id u
                  \<and> \<not> env_sweep_fails env token
                  \<longrightarrow> lookup t' (st_sessions st') token = None)
            \<and> st_users st' = updatePassword (st_users st) (u_id u) (env_hash env pw)
            \<and> st_sessions st'
                = filter (\<lambda>s. s_userId s \<noteq> u_id u \<or> env_sweep_fails env (s_token s))
                    (st_sessions st)
            \<and> st_codes st'
                = snd (validateAndConsume cfg (env_now env) email forget_password code
                         (st_codes st))
            \<and> st_outbox st' = st_outbox st
            \<and> st_log st' = st_log st @
                  (if list_ex (\<lambda>s. s_userId s = u_id u) (st_sessions st')
                   then [Error ''session sweep incomplete''] else [])))
   \<and> ((fst (commitReset cfg env email code pw st) = Success200) =
        (8 \<le> length pw
         \<and> fst (validateAndConsume cfg (env_now env) email forget_password code (st_codes st))
         \<and> findByEmail (st_users st) email \<noteq> None
         \<and> env_write_ok env))
   \<and> (8 \<le> length pw
        \<and> fst (validateAndConsume cfg (env_now env) email forget_password code (st_codes st))
        \<and> findByEmail (st_users st) email \<noteq> None
        \<and> \<not> env_write_ok env \<longrightarrow>
        commitReset cfg env email code pw st =
          (StoreUnavailable,
           st\<lparr>st_codes := snd (validateAndConsume cfg (env_now env) email forget_password
                                 code (st_codes st)),
              st_log := st_log st @ [Error ''credential write failed'']\<rparr>))
   \<and> (length pw < 8 \<longrightarrow> commitReset cfg env email code pw st = (ValidationError, st))
   \<and> (8 \<le> length pw
        \<and> (\<not> fst (validateAndConsume cfg (env_now env) email forget_password code (st_codes st))
            \<or> findByEmail (st_users st) email = None) \<longrightarrow>
        commitReset cfg env email code pw st =
          (InvalidOrExpiredCode,
           st\<lparr>st_codes := snd (validateAndConsume cfg (env_now env) email forget_password
                                 code (st_codes st))\<rparr>))"
proof -
  have success: "commitReset cfg env email code pw st = (Success200, st') \<longrightarrow>
      fst (validateAndConsume cfg (env_now env) email forget_password code (st_codes st))
      \<and> env_write_ok env
      \<and> (\<exists>u. findByEmail (st_users st) email = Some u
            \<and> findByEmail (st_users st') email
                = Some (u\<lparr>u_passwordHash := env_hash env pw\<rparr>)
            \<and> (\<forall>token s. distinct (map s_token (st_sessions st))
                  \<and> lookup t (st_sessions st) token = Some s
                  \<and> s_userId s = u_id u
                  \<and> \<not> env_sweep_fails env token
                  \<longrightarrow> lookup t' (st_sessions st') token = None)
            \<and> st_users st' = updatePassword (st_users st) (u_id u) (env_hash env pw)
            \<and> st_sessions st'
                = filter (\<lambda>s. s_userId s \<noteq> u_id u \<or> env_sweep_fails env (s_token s))
                    (st_sessions st)
            \<and> st_codes st'
                = snd (validateAndConsume cfg (env_now env) email forget_password code
                         (st_codes st))
            \<and> st_outbox st' = st_outbox st
            \<and> st_log st' = st_log st @
                  (if list_ex (\<lambda>s. s_userId s = u_id u) (st_sessions st')
                   then [Error ''session sweep incomplete''] else []))"
  proof
    assume a: "commitReset cfg env email code pw st = (Success200, st')"
    then have "fst (commitReset cfg env email code pw st) = Success200" by simp
    then have v: "fst (validateAndConsume cfg (env_now env) email forget_password code
        (st_codes st))" and w: "env_write_ok env"
      by (simp_all add: commitReset_success_iff)
    from commitReset_success_state [OF a] obtain u where
      f: "findByEmail (st_users st) email = Some u"
      and us: "st_users st' = updatePassword (st_users st) (u_id u) (env_hash env pw)"
      and ss: "st_sessions st'
        = filter (\<lambda>s. s_userId s \<noteq> u_id u \<or> env_sweep_fails env (s_token s)) (st_sessions st)"
      and cs: "st_codes st'
        = snd (validateAndConsume cfg (env_now env) email forget_password code (st_codes st))"
      and ob: "st_outbox st' = st_outbox st"
      and lg: "st_log st' = st_log st @
          (if list_ex (\<lambda>s. s_userId s = u_id u) (st_sessions st')
           then [Error ''session sweep incomplete''] else [])"
      by blast
    from ss have ss': "st_sessions st'
        = snd (invalidateAll (env_sweep_fails env) (u_id u) (st_sessions st))"
      by (simp add: invalidateAll_def Let_def)
    have h: "findByEmail (st_users st') email = Some (u\<lparr>u_passwordHash := env_hash env pw\<rparr>)"
      unfolding us using f by (rule findByEmail_updatePassword)
    have sw: "\<forall>token s. distinct (map s_token (st_sessions st))
                  \<and> lookup t (st_sessions st) token = Some s
                  \<and> s_userId s = u_id u
                  \<and> \<not> env_sweep_fails env token
                  \<longrightarrow> lookup t' (st_sessions st') token = None"
      unfolding ss' using lookup_after_sweep by blast
    from v w f h sw us ss cs ob lg
    show "fst (validateAndConsume cfg (env_now env) email forget_password code (st_codes st))
      \<and> env_write_ok env
      \<and> (\<exists>u. findByEmail (st_users st) email = Some u
            \<and> findByEmail (st_users st') email
                = Some (u\<lparr>u_passwordHash := env_hash env pw\<rparr>)
            \<and> (\<forall>token s. distinct (map s_token (st_sessions st))
                  \<and> lookup t (st_sessions st) token = Some s
                  \<and> s_userId s = u_id u
                  \<and> \<not> env_sweep_fails env token
                  \<longrightarrow> lookup t' (st_sessions st') token = None)
            \<and> st_users st' = updatePassword (st_users st) (u_id u) (env_hash env pw)
            \<and> st_sessions st'
                = filter (\<lambda>s. s_userId s \<noteq> u_id u \<or> env_sweep_fails env (s_token s))
                    (st_sessions st)
            \<and> st_codes st'
                = snd (validateAndConsume cfg (env_now env) email forget_password code
                         (st_codes st))
            \<and> st_outbox st' = st_outbox st
            \<and> st_log st' = st_log st @
                  (if list_ex (\<lambda>s. s_userId s = u_id u) (st_sessions st')
                   then [Error ''session sweep incomplete''] else []))"
      by blast
  qed
  note iff = commitReset_success_iff [of cfg env email code pw st]
  have failed_write: "8 \<le> length pw
        \<and> fst (validateAndConsume cfg (env_now env) email forget_password code (st_codes st))
        \<and> findByEmail (st_users st) email \<noteq> None
        \<and> \<not> env_write_ok env \<longrightarrow>
        commitReset cfg env email code pw st =
          (StoreUnavailable,
           st\<lparr>st_codes := snd (validateAndConsume cfg (env_now env) email forget_password
                                 code (st_codes st)),
              st_log := st_log st @ [Error ''credential write failed'']\<rparr>)"
    using commitReset_write_failure by blast
  note rej = commitReset_rejections [of pw cfg env email code st]
  from success iff failed_write rej show ?thesis
    by (intro conjI) (blast+)?
qed

theorem commit_reset_effects_witness:
  "fst (commitReset sample_cfg sample_env ann (js ''123456'') (js ''longenough1'') sample_state)
     = Success200
   \<and> lookup 10 (st_sessions sample_state) (js ''t1'') = Some (hd sample_sessions)
   \<and> lookup 10 (st_sessions (snd (commitReset sample_cfg sample_env ann (js ''123456'')
        (js ''longenough1'') sample_state))) (js ''t1'') = None
   \<and> fst (commitReset sample_cfg (sample_env\<lparr>env_write_ok := False\<rparr>) ann (js ''123456'')
        (js ''longenough1'') sample_state) = StoreUnavailable"
proof -
  let ?r = "commitReset sample_cfg sample_env ann (js ''123456'') (js ''longenough1'')
      sample_state"
  note th = commit_reset_effects [where cfg = sample_cfg and env = sample_env and email = ann
      and code = "js ''123456''" and pw = "js ''longenough1''" and st = sample_state
      and st' = "snd ?r" and t = 10 and t' = 10]
  have pw: "8 \<le> length (js ''longenough1'')"
    by (simp add: js_def)
  have v: "fst (validateAndConsume sample_cfg (env_now sample_env) ann forget_password
      (js ''123456'') (st_codes sample_state))"
    using sample_validates by (simp add: sample_env_def sample_state_def)
  have f: "findByEmail (st_users sample_state) ann = Some sample_user"
    using sample_account by (simp add: sample_state_def)
  have w: "env_write_ok sample_env"
    by (simp add: sample_env_def)
  from th [THEN conjunct2, THEN conjunct1] pw v f w have s: "fst ?r = Success200"
    by simp
  then have eq: "?r = (Success200, snd ?r)"
    by (simp add: prod_eq_iff)
  from th [THEN conjunct1, THEN mp, OF eq] obtain u where
    u: "findByEmail (st_users sample_state) ann = Some u"
    and sw: "\<forall>token s. distinct (map s_token (st_sessions sample_state))
                  \<and> lookup 10 (st_sessions sample_state) token = Some s
                  \<and> s_userId s = u_id u
                  \<and> \<not> env_sweep_fails sample_env token
                  \<longrightarrow> lookup 10 (st_sessions (snd ?r)) token = None"
    by blast
  from u f have u1: "u = sample_user" by simp
  have d: "distinct (map s_token (st_sessions sample_state))"
    by (simp add: sample_state_def sample_sessions_def js_def)
  have l: "lookup 10 (st_sessions sample_state) (js ''t1'') = Some (hd sample_sessions)"
    using sample_lookup by (simp add: sample_state_def)
  have o: "s_userId (hd sample_sessions) = u_id u"
    by (simp add: u1 sample_sessions_def sample_user_def)
  have n: "\<not> env_sweep_fails sample_env (js ''t1'')"
    by (simp add: sample_env_def)
  from sw d l o n have "lookup 10 (st_sessions (snd ?r)) (js ''t1'') = None"
    by blast
  moreover have "fst (commitReset sample_cfg (sample_env\<lparr>env_write_ok := False\<rparr>) ann
      (js ''123456'') (js ''longenough1'') sample_state) = StoreUnavailable"
  proof -
    let ?env = "sample_env\<lparr>env_write_ok := False\<rparr>"
    have "8 \<le> length (js ''longenough1'')
        \<and> fst (validateAndConsume sample_cfg (env_now ?env) ann forget_password
              (js ''123456'') (st_codes sample_state))
        \<and> findByEmail (st_users sample_state) ann \<noteq> None
        \<and> \<not> env_write_ok ?env"
      using pw v f by (simp add: sample_env_def)
    from commit_reset_effects [where cfg = sample_cfg and env = ?env and email = ann
        and code = "js ''123456''" and pw = "js ''longenough1''" and st = sample_state,
        THEN conjunct2, THEN conjunct2, THEN conjunct1, THEN mp, OF this]
    show ?thesis by simp
  qed
  ultimately show ?thesis using s l by simp
qed



end
